theory Spec2Isabelle
  imports Main "HOL-Library.Sublist"
begin

section \<open>Python strings and integers\<close>

text \<open>
  The generator is Python. Its \<open>str\<close> values are modelled as \<open>string\<close>, read as ASCII text:
  the character classes below (\<open>isspace\<close>, \<open>isdigit\<close>, letter case) are the ASCII ones,
  and a character from 128 on is an uncased symbol that is neither a digit nor white space.
  Python integers are \<open>int\<close>. An exception is a value \<open>Inl e\<close> of a sum type.
  The interpreter's configurable limit on the number of digits of a decimal conversion is
  not part of the model.
\<close>

datatype py_error = ValueError | IndexError | KeyError | OverflowError

definition thenE :: "'e + 'a \<Rightarrow> ('a \<Rightarrow> 'e + 'b) \<Rightarrow> 'e + 'b" where
  "thenE r f = (case r of Inl e \<Rightarrow> Inl e | Inr x \<Rightarrow> f x)"

definition is_space :: "char \<Rightarrow> bool" where
  \<comment> \<open>\<open>str.isspace\<close>, the separator of \<open>str.split()\<close> and the class \<open>\s\<close>:
      TAB, LF, VT, FF, CR, FS, GS, RS, US and the blank.\<close>
  "is_space c = (c \<in> set [CHR 0x09, CHR 0x0A, CHR 0x0B, CHR 0x0C, CHR 0x0D,
                           CHR 0x1C, CHR 0x1D, CHR 0x1E, CHR 0x1F, CHR '' ''])"

definition digit_chars :: string where
  "digit_chars = ''0123456789''"

definition is_digit :: "char \<Rightarrow> bool" where
  \<comment> \<open>the class \<open>\d\<close>, and one character of \<open>str.isdigit\<close>\<close>
  "is_digit c = (c \<in> set digit_chars)"

definition isdigit :: "string \<Rightarrow> bool" where
  \<comment> \<open>\<open>str.isdigit()\<close>: not empty, and every character a digit\<close>
  "isdigit s = (s \<noteq> [] \<and> list_all is_digit s)"

definition upper_chars :: string where
  "upper_chars = ''ABCDEFGHIJKLMNOPQRSTUVWXYZ''"

definition lower_chars :: string where
  "lower_chars = ''abcdefghijklmnopqrstuvwxyz''"

definition lower_char :: "char \<Rightarrow> char" where
  "lower_char c = (case map_of (zip upper_chars lower_chars) c of Some d \<Rightarrow> d | None \<Rightarrow> c)"

definition upper_char :: "char \<Rightarrow> char" where
  "upper_char c = (case map_of (zip lower_chars upper_chars) c of Some d \<Rightarrow> d | None \<Rightarrow> c)"

definition is_alpha :: "char \<Rightarrow> bool" where
  "is_alpha c = (c \<in> set upper_chars \<or> c \<in> set lower_chars)"

definition lower :: "string \<Rightarrow> string" where
  \<comment> \<open>\<open>str.lower()\<close>\<close>
  "lower s = map lower_char s"

definition capitalize :: "string \<Rightarrow> string" where
  \<comment> \<open>\<open>str.capitalize()\<close>: first character upper case, the rest lower case\<close>
  "capitalize s = (case s of [] \<Rightarrow> [] | c # cs \<Rightarrow> upper_char c # lower cs)"

fun title_from :: "bool \<Rightarrow> string \<Rightarrow> string" where
  \<comment> \<open>\<open>str.title()\<close>; the flag says whether the previous character was a letter\<close>
  "title_from prev [] = []"
| "title_from prev (c # cs) =
     (if is_alpha c then (if prev then lower_char c else upper_char c) # title_from True cs
      else c # title_from False cs)"

definition title :: "string \<Rightarrow> string" where
  "title s = title_from False s"

definition strip :: "string \<Rightarrow> string" where
  \<comment> \<open>\<open>str.strip()\<close>\<close>
  "strip s = rev (dropWhile is_space (rev (dropWhile is_space s)))"

fun split_ws_from :: "string \<Rightarrow> string \<Rightarrow> string list" where
  \<comment> \<open>the first argument is the field read so far\<close>
  "split_ws_from cur [] = (if cur = [] then [] else [cur])"
| "split_ws_from cur (c # cs) =
     (if is_space c then (if cur = [] then split_ws_from [] cs else cur # split_ws_from [] cs)
      else split_ws_from (cur @ [c]) cs)"

definition split_ws :: "string \<Rightarrow> string list" where
  \<comment> \<open>\<open>str.split()\<close> without argument: fields between runs of white space, none empty\<close>
  "split_ws s = split_ws_from [] s"

fun split_char_from :: "char \<Rightarrow> string \<Rightarrow> string \<Rightarrow> string list" where
  "split_char_from sep cur [] = [cur]"
| "split_char_from sep cur (c # cs) =
     (if c = sep then cur # split_char_from sep [] cs else split_char_from sep (cur @ [c]) cs)"

definition split_char :: "char \<Rightarrow> string \<Rightarrow> string list" where
  \<comment> \<open>\<open>str.split(sep)\<close> for a separator of one character\<close>
  "split_char sep s = split_char_from sep [] s"

definition replace_char :: "char \<Rightarrow> char \<Rightarrow> string \<Rightarrow> string" where
  \<comment> \<open>\<open>str.replace(a, b)\<close> for single characters\<close>
  "replace_char a b s = map (\<lambda>c. if c = a then b else c) s"

fun contains :: "string \<Rightarrow> string \<Rightarrow> bool" where
  \<comment> \<open>\<open>sub in s\<close>\<close>
  "contains sub [] = (sub = [])"
| "contains sub (c # cs) = (prefix sub (c # cs) \<or> contains sub cs)"

definition endswith :: "string \<Rightarrow> string \<Rightarrow> bool" where
  \<comment> \<open>\<open>s.endswith(suf)\<close>\<close>
  "endswith suf s = suffix suf s"

fun join :: "string \<Rightarrow> string list \<Rightarrow> string" where
  \<comment> \<open>\<open>sep.join(xs)\<close>\<close>
  "join sep [] = []"
| "join sep [x] = x"
| "join sep (x # y # ys) = x @ sep @ join sep (y # ys)"

fun drop_duplicates_from :: "'a list \<Rightarrow> 'a list \<Rightarrow> 'a list" where
  \<comment> \<open>the first argument holds the values already seen\<close>
  "drop_duplicates_from seen [] = []"
| "drop_duplicates_from seen (x # xs) =
     (if x \<in> set seen then drop_duplicates_from seen xs
      else x # drop_duplicates_from (x # seen) xs)"

definition drop_duplicates :: "'a list \<Rightarrow> 'a list" where
  \<comment> \<open>\<open>Series.drop_duplicates()\<close>: the first occurrence of every value, in order\<close>
  "drop_duplicates xs = drop_duplicates_from [] xs"

fun str_nat :: "nat \<Rightarrow> string" where
  "str_nat n = (if n < 10 then [digit_chars ! n] else str_nat (n div 10) @ [digit_chars ! (n mod 10)])"

declare str_nat.simps [simp del]

definition str_int :: "int \<Rightarrow> string" where
  \<comment> \<open>\<open>str(i)\<close>, the text an f-string puts for an integer\<close>
  "str_int i = (if i < 0 then CHR ''-'' # str_nat (nat (- i)) else str_nat (nat i))"

definition zfill_int :: "nat \<Rightarrow> int \<Rightarrow> string" where
  \<comment> \<open>the format \<open>{i:0wd}\<close> for an integer that is not negative: zeros on the left up to
      width \<open>w\<close>\<close>
  "zfill_int w i = replicate (w - length (str_int i)) CHR ''0'' @ str_int i"

definition digit_val :: "char \<Rightarrow> nat" where
  "digit_val c = (case map_of (zip digit_chars [0 ..< 10]) c of Some d \<Rightarrow> d | None \<Rightarrow> 0)"

fun no_double_underscore :: "string \<Rightarrow> bool" where
  "no_double_underscore (a # b # cs) =
     (\<not> (a = CHR ''_'' \<and> b = CHR ''_'') \<and> no_double_underscore (b # cs))"
| "no_double_underscore cs = True"

definition digits_value :: "string \<Rightarrow> nat" where
  "digits_value s = foldl (\<lambda>a c. 10 * a + digit_val c) 0 s"

definition int_digits :: "string \<Rightarrow> nat option" where
  \<comment> \<open>decimal digits, where single underscores may stand between two digits\<close>
  "int_digits s =
     (if s \<noteq> [] \<and> list_all (\<lambda>c. is_digit c \<or> c = CHR ''_'') s \<and> is_digit (hd s)
         \<and> is_digit (last s) \<and> no_double_underscore s
      then Some (digits_value (filter is_digit s))
      else None)"

definition py_int :: "string \<Rightarrow> py_error + int" where
  \<comment> \<open>\<open>int(s)\<close> in base ten: white space around, an optional sign, digits; ValueError
      otherwise\<close>
  "py_int s =
     (case strip s of
        [] \<Rightarrow> Inl ValueError
      | c # cs \<Rightarrow>
          if c = CHR ''-'' then (case int_digits cs of None \<Rightarrow> Inl ValueError
                                | Some n \<Rightarrow> Inr (- int n))
          else if c = CHR ''+'' then (case int_digits cs of None \<Rightarrow> Inl ValueError
                                     | Some n \<Rightarrow> Inr (int n))
          else (case int_digits (c # cs) of None \<Rightarrow> Inl ValueError | Some n \<Rightarrow> Inr (int n)))"

section \<open>Regular expressions\<close>

text \<open>
  The patterns of the source are values of \<open>rx\<close>, matched the way Python's \<open>re\<close> does:
  by backtracking, alternatives from left to right, greedy repetition from the longest
  run down and lazy repetition from the shortest run up. \<open>rx_match r st\<close> lists every way
  to match \<open>r\<close> at state \<open>st\<close> in the order backtracking tries them, so the match found is the
  head of the list. A state is the position, the rest of the text and the groups captured
  so far. Every repetition in the source is over a single character class.
\<close>

datatype rx =
    Chr "char \<Rightarrow> bool"
  | Seq rx rx
  | Alt rx rx
  | Opt rx
  | Rep bool nat "nat option" "char \<Rightarrow> bool"
  | Grp nat rx
  | Bol
  | Eol

type_synonym groups = "nat \<Rightarrow> string option"
type_synonym mstate = "nat \<times> string \<times> groups"

fun rx_match :: "rx \<Rightarrow> mstate \<Rightarrow> mstate list" where
  "rx_match (Chr p) (i, s, g) =
     (case s of [] \<Rightarrow> [] | c # cs \<Rightarrow> if p c then [(Suc i, cs, g)] else [])"
| "rx_match (Seq a b) st = concat (map (rx_match b) (rx_match a st))"
| "rx_match (Alt a b) st = rx_match a st @ rx_match b st"
| "rx_match (Opt a) st = rx_match a st @ [st]"
| "rx_match (Rep greedy lo hi p) (i, s, g) =
     (let avail = length (takeWhile p s);
          top = (case hi of None \<Rightarrow> avail | Some h \<Rightarrow> min h avail);
          counts = (if greedy then rev [lo ..< Suc top] else [lo ..< Suc top])
      in map (\<lambda>k. (i + k, drop k s, g)) counts)"
| "rx_match (Grp n a) (i, s, g) =
     map (\<lambda>(j, s', g'). (j, s', g'(n \<mapsto> take (j - i) s))) (rx_match a (i, s, g))"
| "rx_match Bol (i, s, g) = (if i = 0 then [(i, s, g)] else [])"
| "rx_match Eol (i, s, g) = (if s = [] \<or> s = [CHR 0x0A] then [(i, s, g)] else [])"

text \<open>The numbers of the groups of a pattern.\<close>

fun rx_groups :: "rx \<Rightarrow> nat set" where
  "rx_groups (Chr p) = {}"
| "rx_groups (Seq a b) = rx_groups a \<union> rx_groups b"
| "rx_groups (Alt a b) = rx_groups a \<union> rx_groups b"
| "rx_groups (Opt a) = rx_groups a"
| "rx_groups (Rep greedy lo hi p) = {}"
| "rx_groups (Grp n a) = insert n (rx_groups a)"
| "rx_groups Bol = {}"
| "rx_groups Eol = {}"

fun search_from :: "rx \<Rightarrow> nat \<Rightarrow> string \<Rightarrow> groups option" where
  \<comment> \<open>the leftmost match starting at position \<open>i\<close> or later; \<open>s\<close> is the text from \<open>i\<close> on\<close>
  "search_from r i [] = (case rx_match r (i, [], Map.empty) of [] \<Rightarrow> None | (_, _, g) # _ \<Rightarrow> Some g)"
| "search_from r i (c # cs) =
     (case rx_match r (i, c # cs, Map.empty) of
        [] \<Rightarrow> search_from r (Suc i) cs
      | (_, _, g) # _ \<Rightarrow> Some g)"

definition re_search :: "rx \<Rightarrow> string \<Rightarrow> groups option" where
  \<comment> \<open>\<open>re.search(r, s)\<close>: the groups of the first match, \<open>None\<close> without a match\<close>
  "re_search r s = search_from r 0 s"

definition lit :: "char \<Rightarrow> rx" where
  "lit c = Chr (\<lambda>x. x = c)"

fun lits :: "string \<Rightarrow> rx" where
  \<comment> \<open>a literal text of at least one character\<close>
  "lits [] = Opt (Chr (\<lambda>x. False))"
| "lits [c] = lit c"
| "lits (c # cs) = Seq (lit c) (lits cs)"

definition extract_row :: "rx \<Rightarrow> nat list \<Rightarrow> string \<Rightarrow> string option list" where
  \<comment> \<open>one row of \<open>Series.str.extract(r)\<close>: the groups of the first match, every one missing
      without a match\<close>
  "extract_row r ns s =
     (case re_search r s of None \<Rightarrow> map (\<lambda>n. None) ns | Some g \<Rightarrow> map g ns)"

definition extract_dropna :: "rx \<Rightarrow> nat list \<Rightarrow> string list \<Rightarrow> string list list" where
  \<comment> \<open>\<open>Series.str.extract(r).dropna()\<close>: the rows in which no group is missing\<close>
  "extract_dropna r ns col =
     map (map the) (filter (list_all (\<lambda>v. v \<noteq> None)) (map (extract_row r ns) col))"

fun findall_digits_from :: "string \<Rightarrow> string \<Rightarrow> string list" where
  \<comment> \<open>the first argument is the run of digits read so far\<close>
  "findall_digits_from cur [] = (if cur = [] then [] else [cur])"
| "findall_digits_from cur (c # cs) =
     (if is_digit c then findall_digits_from (cur @ [c]) cs
      else if cur = [] then findall_digits_from [] cs
      else cur # findall_digits_from [] cs)"

definition findall_digits :: "string \<Rightarrow> string list" where
  \<comment> \<open>\<open>re.findall(r'\d+', s)\<close>: the maximal runs of digits, left to right\<close>
  "findall_digits s = findall_digits_from [] s"

definition remove_spaces :: "string \<Rightarrow> string" where
  \<comment> \<open>\<open>re.sub(r'\s+', '', s)\<close>\<close>
  "remove_spaces s = filter (\<lambda>c. \<not> is_space c) s"

section \<open>schedule\_parser.py\<close>

text \<open>
  A pandas Series of texts is the list of its values in order; a frame is the list of its
  rows.
\<close>

subsection \<open>timedelta\_calculator\<close>

datatype report_type = Daily | Weekly | Monthly

definition standard_start_time :: int where
  "standard_start_time = 3"

definition minute_delta :: "string \<Rightarrow> int" where
  \<comment> \<open>\<open>int(minute_val) if minute_val.isdigit() else 0\<close>\<close>
  "minute_delta minute_val =
     (if isdigit minute_val then (case py_int minute_val of Inr m \<Rightarrow> m | Inl _ \<Rightarrow> 0) else 0)"

definition timedelta_calculator :: "string \<Rightarrow> py_error + (report_type \<times> int \<times> int)" where
  "timedelta_calculator cron_value =
     (if cron_value = [] then Inl ValueError
      else
        let trimmed_cron_value = remove_spaces cron_value;
            parsed_cron_value = split_ws cron_value
        in
          if endswith ''***'' trimmed_cron_value then
            (if length parsed_cron_value \<ge> 2 then
               thenE (py_int (parsed_cron_value ! 1)) (\<lambda>hour.
                 Inr (Daily, hour - standard_start_time, minute_delta (parsed_cron_value ! 0)))
             else Inr (Daily, 0, 0))
          else if trimmed_cron_value = [] then Inl IndexError
          else if last trimmed_cron_value \<noteq> CHR ''*'' then
            (let weekday_str = last parsed_cron_value in
               if isdigit weekday_str then
                 thenE (py_int weekday_str) (\<lambda>weekday.
                   if length parsed_cron_value < 2 then Inl IndexError
                   else thenE (py_int (parsed_cron_value ! 1)) (\<lambda>hour.
                     let hour_val = weekday * 24 - (hour - standard_start_time)
                     in Inr (Weekly, hour_val * (- 1), minute_delta (parsed_cron_value ! 0))))
               else Inr (Weekly, 0, minute_delta (parsed_cron_value ! 0)))
          else Inr (Monthly, 0, 0))"

subsection \<open>discover\_cron\<close>

definition time_rx :: rx where
  \<comment> \<open>\<open>(\d+):(\d+)\<close>\<close>
  "time_rx = Seq (Grp 1 (Rep True 1 None is_digit)) (Seq (lit CHR '':'') (Grp 2 (Rep True 1 None is_digit)))"

definition am_pm_rx :: rx where
  \<comment> \<open>\<open>(\d+):?(?:\d{{2}})?\s*(am|pm)\<close>. The pattern is a raw string, not an f-string, so
      the doubled braces are part of it: \<open>{{2}\<close> is an opening brace twice, and the last
      brace a literal one.\<close>
  "am_pm_rx =
     Seq (Grp 1 (Rep True 1 None is_digit))
    (Seq (Opt (lit CHR '':''))
    (Seq (Opt (Seq (Chr is_digit) (Seq (Rep True 2 (Some 2) (\<lambda>c. c = CHR 0x7B)) (lit CHR 0x7D))))
    (Seq (Rep True 0 None is_space)
         (Grp 2 (Alt (lits ''am'') (lits ''pm''))))))"

definition weekday_map :: "(string \<times> int) list" where
  "weekday_map =
     [(''monday'', 1), (''tuesday'', 2), (''wednesday'', 3), (''thursday'', 4),
      (''friday'', 5), (''saturday'', 6), (''sunday'', 0)]"

fun find_weekday :: "(string \<times> int) list \<Rightarrow> string \<Rightarrow> int \<Rightarrow> int" where
  \<comment> \<open>the loop over \<open>weekday_map.items()\<close>, which stops at the first name found in the text\<close>
  "find_weekday [] text week_value = week_value"
| "find_weekday ((weekday, v) # rest) text week_value =
     (if contains weekday text then v else find_weekday rest text week_value)"

definition discover_cron :: "string list \<Rightarrow> py_error + string" where
  "discover_cron df_and_column =
     (let df_lower = drop_duplicates (map lower df_and_column);
          time_match = extract_dropna time_rx [1, 2] df_lower;
          am_pm_match = extract_dropna am_pm_rx [1, 2] df_lower
      in
        thenE (case time_match of [] \<Rightarrow> Inr 0 | row # _ \<Rightarrow> py_int (row ! 1)) (\<lambda>minute_value.
        thenE (case am_pm_match of
                 [] \<Rightarrow> Inr 4
               | row # _ \<Rightarrow>
                   thenE (py_int (row ! 0)) (\<lambda>hour.
                     Inr (if lower (row ! 1) = ''pm'' \<and> hour < 12 then hour + 12 else hour)))
          (\<lambda>hour_value.
        case df_lower of
          [] \<Rightarrow> Inl IndexError
        | first # _ \<Rightarrow>
            let hour_zone =
                  (if contains ''ct'' first \<or> contains ''cst'' first then hour_value - 2
                   else if contains ''et'' first \<or> contains ''est'' first \<or> contains ''edt'' first
                        then hour_value - 3
                   else if contains ''mt'' first \<or> contains ''mst'' first then hour_value - 1
                   else hour_value);
                hour_24 = hour_zone mod 24;
                week_value = find_weekday weekday_map first 1
            in
              if contains ''daily'' first \<or> contains '' day'' first
              then Inr (str_int minute_value @ '' '' @ str_int hour_24 @ '' * * *'')
              else Inr (str_int minute_value @ '' '' @ str_int hour_24 @ '' * * ''
                        @ str_int week_value))))"

subsection \<open>discover\_timespan\<close>

text \<open>
  The result is \<open>Union[str, int, None]\<close>. \<open>datetime.today()\<close> is an input of the model,
  a record of the three fields the function reads.
\<close>

datatype timespan = TS_Str string | TS_Int int | TS_None

record today =
  year :: int
  month :: int
  day :: int

definition mm_dd_rx :: rx where
  \<comment> \<open>\<open>(\d{1,2}/\d{1,2})\<close>\<close>
  "mm_dd_rx = Grp 1 (Seq (Rep True 1 (Some 2) is_digit)
                    (Seq (lit CHR ''/'') (Rep True 1 (Some 2) is_digit)))"

definition days_rx :: rx where
  \<comment> \<open>\<open>(\d+)\s*day\<close>\<close>
  "days_rx = Seq (Grp 1 (Rep True 1 None is_digit)) (Seq (Rep True 0 None is_space) (lits ''day''))"

definition is_leap :: "int \<Rightarrow> bool" where
  "is_leap y = (y mod 4 = 0 \<and> (y mod 100 \<noteq> 0 \<or> y mod 400 = 0))"

definition days_in_month :: "int \<Rightarrow> int \<Rightarrow> int" where
  "days_in_month y m =
     (if m = 2 then (if is_leap y then 29 else 28)
      else if m = 4 \<or> m = 6 \<or> m = 9 \<or> m = 11 then 30 else 31)"

definition valid_date :: "int \<Rightarrow> int \<Rightarrow> int \<Rightarrow> bool" where
  \<comment> \<open>the dates \<open>datetime(y, m, d)\<close> accepts\<close>
  "valid_date y m d =
     (1 \<le> y \<and> y \<le> 9999 \<and> 1 \<le> m \<and> m \<le> 12 \<and> 1 \<le> d \<and> d \<le> days_in_month y m)"

definition c_int_max :: int where
  "c_int_max = 2147483647"

definition datetime :: "int \<Rightarrow> int \<Rightarrow> int \<Rightarrow> py_error + (int \<times> int \<times> int)" where
  \<comment> \<open>\<open>datetime(y, m, d)\<close>: OverflowError for an argument that is no C int, ValueError for
      one out of range\<close>
  "datetime y m d =
     (if y > c_int_max \<or> m > c_int_max \<or> d > c_int_max
         \<or> y < - c_int_max - 1 \<or> m < - c_int_max - 1 \<or> d < - c_int_max - 1
      then Inl OverflowError
      else if valid_date y m d then Inr (y, m, d) else Inl ValueError)"

definition strftime_ymd :: "int \<times> int \<times> int \<Rightarrow> string" where
  \<comment> \<open>\<open>strftime('%Y-%m-%d')\<close>. The year is printed as the C library of the interpreter
      prints it, without padding; a year from 1000 on reads the same on every platform.\<close>
  "strftime_ymd d = (case d of (y, m, dd) \<Rightarrow>
     str_int y @ ''-'' @ zfill_int 2 m @ ''-'' @ zfill_int 2 dd)"

definition nat_of_digits :: "string \<Rightarrow> int" where
  \<comment> \<open>\<open>int(s)\<close> for a text the pattern \<open>\d+\<close> matched\<close>
  "nat_of_digits s = (case py_int s of Inr n \<Rightarrow> n | Inl _ \<Rightarrow> 0)"

definition discover_timespan :: "today \<Rightarrow> string list \<Rightarrow> py_error + timespan" where
  "discover_timespan now timespan_column =
     (case map lower (drop_duplicates timespan_column) of
        [] \<Rightarrow> Inr TS_None
      | value_str # _ \<Rightarrow>
          if contains ''present'' value_str then
            (case re_search mm_dd_rx value_str of
               None \<Rightarrow> Inr TS_None
             | Some g \<Rightarrow>
                 let mm_dd = split_char CHR ''/'' (the (g 1));
                     mm = nat_of_digits (mm_dd ! 0);
                     dd = nat_of_digits (mm_dd ! 1)
                 in Inr (TS_Str (zfill_int 4 (year now) @ ''-'' @ zfill_int 2 mm @ ''-''
                                 @ zfill_int 2 dd)))
          else if contains ''mtd'' value_str \<or> contains ''month to date'' value_str then
            Inr (TS_Str ''toStartOfMonth(today())'')
          else if contains ''ytd'' value_str \<or> contains ''year to date'' value_str then
            Inr (TS_Str ''toStartOfYear(today())'')
          else if contains ''prior day'' value_str \<or> contains ''previous day'' value_str then
            Inr (TS_Int 1)
          else if contains ''ongoing'' value_str \<or> contains ''starting'' value_str then
            (let numbers = map nat_of_digits (findall_digits value_str);
                 ymd = (case numbers of
                          [] \<Rightarrow> (year now, month now, day now)
                        | [m] \<Rightarrow> (year now, m, day now)
                        | [m, d] \<Rightarrow> (year now, m, d)
                        | m # d # y # _ \<Rightarrow> (if y < 100 then y + 2000 else y, m, d))
             in case ymd of (y, m, d) \<Rightarrow>
                  (case datetime y m d of
                     Inr parsed_date \<Rightarrow> Inr (TS_Str (strftime_ymd parsed_date))
                   | Inl ValueError \<Rightarrow> Inr TS_None
                   | Inl e \<Rightarrow> Inl e))
          else
            (case re_search days_rx value_str of
               None \<Rightarrow> Inr TS_None
             | Some g \<Rightarrow> Inr (TS_Int (nat_of_digits (the (g 1))))))"

section \<open>sql\_generator.py\<close>

definition dq :: string where
  \<comment> \<open>the double quote\<close>
  "dq = [CHR 0x22]"

definition MAPPING_DICT :: "(string \<times> string) list" where
  \<comment> \<open>the entries in the order of the source; the key written twice has the same value
      both times\<close>
  "MAPPING_DICT =
     [(''date'', ''event_date''),
      (''partner id'', ''partner_id''),
      (''ad group name'', ''adgroup_name''),
      (''ad group'', ''adgroup_name''),
      (''adgroup name'', ''adgroup_name''),
      (''adgroup'', ''adgroup_name''),
      (''ad group'', ''adgroup_name''),
      (''adgroup lid'', ''adgroup_lid''),
      (''adgroup hid'', ''adgroup_hid''),
      (''campaign'', ''campaign_name''),
      (''campaign name'', ''campaign_name''),
      (''campaign lid'', ''campaign_lid''),
      (''campaign hid'', ''campaign_hid''),
      (''sid'', ''sid''),
      (''said'', ''said''),
      (''sid-said'', ''concat(sid,'' @ dq @ ''~'' @ dq @ '',said)''),
      (''advertiser name'', ''advertiser_name''),
      (''advertiser'', ''advertiser_name''),
      (''keyword'', ''viewed_text''),
      (''pub name'', ''affiliate_account_name''),
      (''publisher name'', ''affiliate_account_name''),
      (''publisher'', ''affiliate_account_name''),
      (''publisher lid'', ''affiliate_account_lid''),
      (''publisher hid'', ''affiliate_account_hid''),
      (''source name'', ''traffic_source_name''),
      (''source'', ''traffic_source_name''),
      (''traffic source lid'', ''traffic_source_lid''),
      (''traffic source hid'', ''traffic_source_hid''),
      (''cpc'',
        ''CASE WHEN isNaN(round(sum(revenue)/sum(paid_clicks),2)) THEN 0 ELSE round(sum(revenue)/sum(paid_clicks),2) END''),
      (''cpa'',
        ''CASE WHEN isNaN(round(sum(revenue)/sum(actions_worth), 2)) THEN 0 WHEN isInfinite(round(sum(revenue)/sum(actions_worth), 2)) THEN 0 ELSE round(sum(revenue)/sum(actions_worth), 2) END''),
      (''ctr'', ''COALESCE(ROUND(SUM(paid_clicks)/SUM(impressions), 6), 0)''),
      (''cvr'', ''COALESCE(ROUND(SUM(actions_worth) / SUM(paid_clicks), 6), 0)''),
      (''clicks'', ''COALESCE(sum(paid_clicks),0)''),
      (''conversions'', ''COALESCE(sum(event_fires),0)''),
      (''reservations'', ''COALESCE(sum(event_fires),0)''),
      (''actions'', ''COALESCE(sum(actions_worth),0)''),
      (''conversion rate'', ''round(sum(actions_worth)/sum(paid_clicks), 4)''),
      (''conversion value'', ''round(COALESCE(sum(dollars_worth),0),2)''),
      (''impressions'', ''round(COALESCE(sum(impressions),0),0)''),
      (''imps'', ''round(COALESCE(sum(impressions),0),0)''),
      (''spend'', ''round(COALESCE(sum(revenue),0),2)''),
      (''cost'', ''round(COALESCE(sum(revenue),0),2)''),
      (''revenue'', ''round(COALESCE(sum(dollars_worth),0),2)''),
      (''inquiries'', ''round(COALESCE(sum(actions_worth),0),2)''),
      (''purchases'', ''round(COALESCE(sum(event_fires),0),2)'')]"

definition generate_selects :: "string \<Rightarrow> string option" where
  "generate_selects main_text = map_of MAPPING_DICT (lower (strip main_text))"

definition add_backticks :: "string \<Rightarrow> string" where
  "add_backticks v = (if CHR '' '' \<in> set v then [CHR 0x60] @ v @ [CHR 0x60] else v)"

fun split_columns_from :: "nat \<Rightarrow> string \<Rightarrow> string \<Rightarrow> string list" where
  \<comment> \<open>the first argument counts the characters of a separator still to skip, the second
      is the token read so far\<close>
  "split_columns_from k cur [] = [cur]"
| "split_columns_from (Suc k) cur (c # cs) = split_columns_from k cur cs"
| "split_columns_from 0 cur (c # cs) =
     (if c = CHR 0x0A then cur # split_columns_from 0 [] cs
      else if prefix '', and '' (c # cs) then cur # split_columns_from 5 [] cs
      else if prefix '', '' (c # cs) then cur # split_columns_from 1 [] cs
      else if c = CHR '','' then cur # split_columns_from 0 [] cs
      else split_columns_from 0 (cur @ [c]) cs)"

definition split_columns :: "string \<Rightarrow> string list" where
  \<comment> \<open>\<open>.str.split(r'\n|\, and |\, |,')\<close>: at every position the alternatives are tried
      from left to right\<close>
  "split_columns s = split_columns_from 0 [] s"

definition not_newline :: "char \<Rightarrow> bool" where
  \<comment> \<open>the class \<open>.\<close>\<close>
  "not_newline c = (c \<noteq> CHR 0x0A)"

definition not_paren :: "char \<Rightarrow> bool" where
  \<comment> \<open>the class \<open>[^()]\<close>\<close>
  "not_paren c = (c \<noteq> CHR ''('' \<and> c \<noteq> CHR '')'')"

definition main_text_1_rx :: rx where
  \<comment> \<open>\<open>^(.*?)(?:\s*-\s*|\s*=\s*(.*))?$\<close>: the second group belongs to the alternative
      with the equals sign only\<close>
  "main_text_1_rx =
     Seq Bol
    (Seq (Grp 1 (Rep False 0 None not_newline))
    (Seq (Opt (Alt (Seq (Rep True 0 None is_space)
                   (Seq (lit CHR ''-'') (Rep True 0 None is_space)))
                   (Seq (Rep True 0 None is_space)
                   (Seq (lit CHR ''='')
                   (Seq (Rep True 0 None is_space) (Grp 2 (Rep True 0 None not_newline)))))))
         Eol))"

definition main_text_2_rx :: rx where
  \<comment> \<open>\<open>^([^()]+)\s*\(([^()]+)\)$\<close>\<close>
  "main_text_2_rx =
     Seq Bol
    (Seq (Grp 1 (Rep True 1 None not_paren))
    (Seq (Rep True 0 None is_space)
    (Seq (lit CHR ''('')
    (Seq (Grp 2 (Rep True 1 None not_paren))
    (Seq (lit CHR '')'') Eol)))))"

definition fillna :: "'a option \<Rightarrow> 'a option \<Rightarrow> 'a option" where
  "fillna a b = (case a of None \<Rightarrow> b | Some v \<Rightarrow> Some v)"

definition main_text_of :: "string \<Rightarrow> string" where
  \<comment> \<open>the column \<open>main_text\<close> of one token: the first group of the first pattern, else of
      the second, else the token\<close>
  "main_text_of tok =
     (let main_text_1 = extract_row main_text_1_rx [1, 2] tok ! 0;
          main_text_2 = extract_row main_text_2_rx [1, 2] tok ! 0
      in case fillna main_text_1 main_text_2 of None \<Rightarrow> tok | Some t \<Rightarrow> t)"

definition transform_text :: "string \<Rightarrow> string" where
  \<comment> \<open>the local function \<open>_transform_text\<close>\<close>
  "transform_text x =
     join '' '' (map (\<lambda>word. if length word \<le> 3 then capitalize word else title word)
                     (split_ws x))"

record select_row =
  main_text :: string
  modified_main_text :: string
  selects_for_sql :: "string option"
  aliases_for_sql :: string
  json_col_names :: string
  final_sql_select_column :: string
  sample_main_text :: string
  sample_report_selects :: string

definition fill_empty :: "string option \<Rightarrow> string" where
  \<comment> \<open>\<open>.fillna('')\<close>\<close>
  "fill_empty v = (case v of None \<Rightarrow> [] | Some e \<Rightarrow> e)"

definition make_row :: "string \<Rightarrow> select_row" where
  \<comment> \<open>the columns of \<open>select_df\<close> for one token\<close>
  "make_row tok =
     (let mt = main_text_of tok;
          modified = transform_text mt;
          selects = generate_selects mt;
          alias = replace_char CHR '' '' CHR ''_'' mt @ ''_as_column''
      in \<lparr> main_text = mt,
           modified_main_text = modified,
           selects_for_sql = selects,
           aliases_for_sql = alias,
           json_col_names = alias @ ''|'' @ modified,
           final_sql_select_column = fill_empty selects @ '' as '' @ alias,
           sample_main_text = add_backticks modified,
           sample_report_selects = fill_empty selects @ '' as '' @ add_backticks modified \<rparr>)"

text \<open>
  One row of the frame \<open>get_jira_ticket_info\<close> returns, with the columns the generator reads;
  the field \<open>x_col\<close> is the column \<open>x\<close>. Every cell is a text.
\<close>

record ticket_row =
  time_span_col :: string
  sql_select_columns_col :: string
  period_and_time_col :: string
  delivery_method_col :: string
  recipient_list_col :: string
  lid_hid_col :: string

definition select_df :: "ticket_row list \<Rightarrow> select_row list" where
  \<comment> \<open>the tokens of every row, exploded, without the rows whose \<open>main_text\<close> is empty\<close>
  "select_df dataframe =
     filter (\<lambda>r. main_text r \<noteq> [])
       (map make_row (concat (map (\<lambda>t. split_columns (lower (sql_select_columns_col t))) dataframe)))"

definition aggregate_keywords :: "string list" where
  "aggregate_keywords = [''sum'', ''count'', ''min'', ''max'']"

definition is_aggregate :: "string option \<Rightarrow> bool" where
  \<comment> \<open>\<open>.str.contains('sum|count|min|max', case=False, na=False)\<close>\<close>
  "is_aggregate v =
     (case v of None \<Rightarrow> False
      | Some e \<Rightarrow> list_ex (\<lambda>k. contains k (lower e)) aggregate_keywords)"

definition group_by_df :: "select_row list \<Rightarrow> select_row list" where
  "group_by_df rows = filter (\<lambda>r. \<not> is_aggregate (selects_for_sql r)) rows"

definition dropna :: "'a option list \<Rightarrow> 'a list" where
  "dropna vs = map the (filter (\<lambda>v. v \<noteq> None) vs)"

record sql_elements =
  melted_column_names :: string
  melted_base_sql :: string
  lid :: string
  hid :: "string option"
  melted_group_by :: string
  sample_melted_base_sql :: string

definition nth_opt :: "'a list \<Rightarrow> nat \<Rightarrow> 'a option" where
  "nth_opt xs i = (if i < length xs then Some (xs ! i) else None)"

definition sql_statement_generator :: "ticket_row list \<Rightarrow> py_error + sql_elements" where
  \<comment> \<open>\<open>str.split('~', expand=True)\<close> has as many columns as the row with the most parts:
      column 0 is missing for a frame without rows, column 1 when no row has a tilde\<close>
  "sql_statement_generator dataframe =
     (let rows = select_df dataframe in
      case dataframe of
        [] \<Rightarrow> Inl KeyError
      | first # _ \<Rightarrow>
          if \<not> list_ex (\<lambda>t. CHR ''~'' \<in> set (lid_hid_col t)) dataframe then Inl KeyError
          else Inr
            \<lparr> melted_column_names = join '', '' (map json_col_names rows),
              melted_base_sql =
                ''SELECT '' @ join '', '' (map final_sql_select_column rows) @ '' '' @ ''FROM ad_event_view '',
              lid = split_char CHR ''~'' (lid_hid_col first) ! 0,
              hid = nth_opt (split_char CHR ''~'' (lid_hid_col first)) 1,
              melted_group_by = join '', '' (dropna (map selects_for_sql (group_by_df rows))),
              sample_melted_base_sql =
                ''SELECT '' @ join '', '' (map sample_report_selects rows) @ '' '' @ ''FROM ad_event_view '' \<rparr>)"

section \<open>advertiser\_report\_generator.py\<close>

definition nl :: string where
  "nl = [CHR 0x0A]"

definition bs :: string where
  \<comment> \<open>the backslash\<close>
  "bs = [CHR 0x5C]"

definition sq :: string where
  \<comment> \<open>the single quote\<close>
  "sq = [CHR 0x27]"

definition str_report_type :: "report_type \<Rightarrow> string" where
  "str_report_type t = (case t of Daily \<Rightarrow> ''Daily'' | Weekly \<Rightarrow> ''Weekly'' | Monthly \<Rightarrow> ''Monthly'')"

definition str_opt :: "string option \<Rightarrow> string" where
  \<comment> \<open>what an f-string puts for a text or for \<open>None\<close>\<close>
  "str_opt v = (case v of None \<Rightarrow> ''None'' | Some t \<Rightarrow> t)"

record generator =
  clickhouse_host :: string
  db_name :: string

text \<open>
  The three f-strings of \<open>assemble_int_dag_json\<close>, \<open>assemble_str_dag_json\<close> and
  \<open>assemble_default_dag_json\<close> are the same text, line for line, outside four places: the
  middle of the attachment name, the end of the mail subject, the value of
  \<open>report_for_past_n_days\<close> and the date filter of the query. \<open>job_document\<close> is that text
  with the four places as arguments.
\<close>

definition job_document ::
  "string \<Rightarrow> string \<Rightarrow> string \<Rightarrow> string \<Rightarrow> string \<Rightarrow> string \<Rightarrow> string \<Rightarrow> string
   \<Rightarrow> sql_elements \<Rightarrow> string \<Rightarrow> string \<Rightarrow> string" where
  "job_document delivery recipients advertiser_input attachment_span subject_time past_n_days
     date_filter cron_job sql_elements hours minutes =
     concat
      [nl,
       ''        {'', nl,
       ''          '', dq, ''export_setting'', dq, '': {'', nl,
       ''            '', dq, ''export_type'', dq, '': '', dq, delivery, dq, '','', nl,
       ''            '', dq, ''mail_to'', dq, '': '', dq, recipients, '', chris.pachulski@ad.net'', dq, '','', nl,
       ''            '', dq, ''attachment_name'', dq, '': '', dq, ''adnet_'', advertiser_input,
         ''_'', attachment_span, ''_${end_date}.csv'', dq, '','', nl,
       ''            '', dq, ''export_dest_dir'', dq, '': '', dq, dq, '','', nl,
       ''            '', dq, ''mail_subject'', dq, '': '', dq, ''Ad.net - '',
         (replace_char CHR ''_'' CHR '' '' advertiser_input), '' '', subject_time, dq, '','', nl,
       ''            '', dq, ''export_password'', dq, '': '', dq, dq, '','', nl,
       ''            '', dq, ''export_url'', dq, '': '', dq, dq, '','', nl,
       ''            '', dq, ''mail_from'', dq, '': '', dq, ''NO-REPLY@ad.net'', dq, '','', nl,
       ''            '', dq, ''mail_body'', dq, '': '', dq, ''Stats attached.'', dq, '','', nl,
       ''            '', dq, ''export_username'', dq, '': '', dq, dq, nl,
       ''          },'', nl,
       ''          '', dq, ''report_definition'', dq, '': {'', nl,
       ''            '', dq, ''reportType'', dq, '': '', dq, ''SCRIPTED'', dq, '','', nl,
       ''            '', dq, ''quotechar'', dq, '': '', dq, bs, dq, dq, '','', nl,
       ''            '', dq, ''report_for_past_n_days'', dq, '': '', past_n_days, '','', nl,
       ''            '', dq, ''escapechar'', dq, '': '', dq, bs, dq, dq, '','', nl,
       ''            '', dq, ''columns'', dq, '': '', dq, (melted_column_names sql_elements), dq, '','', nl,
       ''            '', dq, ''calculateTotals'', dq, '': false,'', nl,
       ''            '', dq, ''lowerCtr'', dq, '': '', dq, dq, '','', nl,
       ''            '', dq, ''upperCtr'', dq, '': '', dq, dq, '','', nl,
       ''            '', dq, ''separator'', dq, '': '', dq, '','', dq, '','', nl,
       ''            '', dq, ''lineEnd'', dq, '': '', dq, bs, ''n'', dq, '','', nl,
       ''            '', dq, ''scriptedTableReport'', dq, '': {'', nl,
       ''                '', dq, ''database'', dq, '': '', dq, ''CLICKHOUSE'', dq, '','', nl,
       ''                '', dq, ''scriptedSql'', dq, '': '', dq, (melted_base_sql sql_elements),
         '' where event_date BETWEEN '', date_filter, '' AND (advertiser_lid = '', (lid sql_elements),
         '' AND advertiser_hid = '', (str_opt (hid sql_elements)), '') GROUP BY '',
         (melted_group_by sql_elements), '' ORDER BY event_date desc'', dq, nl,
       ''            }'', nl,
       ''          },'', nl,
       ''          '', dq, ''external_dependency'', dq, '': {'', nl,
       ''            '', dq, ''timedelta'', dq, '': {'', nl,
       ''                '', dq, ''hours'', dq, '': '', hours, '','', nl,
       ''                '', dq, ''minutes'', dq, '': '', minutes, nl,
       ''            },'', nl,
       ''            '', dq, ''task_id'', dq, '': '', dq, ''process_completed_notification'', dq, '','', nl,
       ''            '', dq, ''dag_id'', dq, '': '', dq, ''traffic-server-etl-daily'', dq, nl,
       ''          },'', nl,
       ''          '', dq, ''schedule_interval'', dq, '': '', dq, cron_job, dq, nl,
       ''        }'', nl,
       ''        '']"

definition assemble_int_dag_json ::
  "generator \<Rightarrow> string \<Rightarrow> string \<Rightarrow> string \<Rightarrow> int \<Rightarrow> string \<Rightarrow> sql_elements
   \<Rightarrow> py_error + string" where
  "assemble_int_dag_json self delivery recipients advertiser_input time_span cron_job sql_elements =
     thenE (timedelta_calculator cron_job) (\<lambda>timedelta_value.
       Inr (job_document delivery recipients advertiser_input ''${start_date}''
              (str_report_type (fst timedelta_value) @ '' Report'')
              (str_int time_span)
              '':startDate AND :endDate''
              cron_job sql_elements
              (str_int (fst (snd timedelta_value))) (str_int (snd (snd timedelta_value)))))"

definition assemble_str_dag_json ::
  "generator \<Rightarrow> string \<Rightarrow> string \<Rightarrow> string \<Rightarrow> string \<Rightarrow> string \<Rightarrow> sql_elements
   \<Rightarrow> py_error + string" where
  "assemble_str_dag_json self delivery recipients advertiser_input time_span cron_job sql_elements =
     thenE (timedelta_calculator cron_job) (\<lambda>timedelta_value.
       Inr (job_document delivery recipients advertiser_input time_span
              (str_report_type (fst timedelta_value) @ '' Report'')
              ''1''
              (sq @ time_span @ sq @ '' AND :endDate'')
              cron_job sql_elements
              (str_int (fst (snd timedelta_value))) (str_int (snd (snd timedelta_value)))))"

definition str_timespan :: "timespan \<Rightarrow> string" where
  \<comment> \<open>what an f-string puts for a value of \<open>Union[str, int, None]\<close>\<close>
  "str_timespan t = (case t of TS_Str s \<Rightarrow> s | TS_Int n \<Rightarrow> str_int n | TS_None \<Rightarrow> ''None'')"

definition assemble_default_dag_json ::
  "generator \<Rightarrow> string \<Rightarrow> string \<Rightarrow> string \<Rightarrow> timespan \<Rightarrow> string \<Rightarrow> sql_elements
   \<Rightarrow> py_error + string" where
  "assemble_default_dag_json self delivery recipients advertiser_input time_span cron_job sql_elements =
     thenE (timedelta_calculator cron_job) (\<lambda>timedelta_value.
       let (display_span, subject_time, date_filter) =
             (if time_span = TS_Str ''toStartOfMonth(today())''
              then (''MTD'', ''MTD'' @ '' Report'', ''toStartOfMonth(today()) AND :endDate'')
              else if time_span = TS_Str ''toStartOfYear(today())''
              then (''YTD'', ''YTD'' @ '' Report'', ''toStartOfYear(today()) AND :endDate'')
              else (str_timespan time_span,
                    str_report_type (fst timedelta_value) @ '' Report'',
                    '':startDate AND :endDate''))
       in Inr (job_document delivery recipients advertiser_input display_span subject_time ''1''
                 date_filter cron_job sql_elements
                 (str_int (fst (snd timedelta_value))) (str_int (snd (snd timedelta_value)))))"

subsection \<open>export\_json\<close>

fun remove_sub_from :: "nat \<Rightarrow> string \<Rightarrow> string \<Rightarrow> string" where
  \<comment> \<open>the first argument counts the characters of an occurrence still to skip\<close>
  "remove_sub_from k old [] = []"
| "remove_sub_from (Suc k) old (c # cs) = remove_sub_from k old cs"
| "remove_sub_from 0 old (c # cs) =
     (if old \<noteq> [] \<and> prefix old (c # cs) then remove_sub_from (length old - 1) old cs
      else c # remove_sub_from 0 old cs)"

definition remove_sub :: "string \<Rightarrow> string \<Rightarrow> string" where
  \<comment> \<open>\<open>s.replace(old, '')\<close>: the occurrences found from left to right, never overlapping\<close>
  "remove_sub old s = remove_sub_from 0 old s"

definition collapse :: "string \<Rightarrow> string" where
  \<comment> \<open>\<open>.replace('\n', '').replace('    ', '')\<close>\<close>
  "collapse s = remove_sub ''    '' (remove_sub nl s)"

definition hex_chars :: string where
  "hex_chars = ''0123456789abcdef''"

definition json_escape :: "char \<Rightarrow> string" where
  \<comment> \<open>one character of a JSON string with \<open>ensure_ascii=False\<close>: the quote, the backslash
      and the control characters are escaped\<close>
  "json_escape c =
     (if c = CHR 0x22 then bs @ dq
      else if c = CHR 0x5C then bs @ bs
      else if c = CHR 0x0A then bs @ ''n''
      else if c = CHR 0x0D then bs @ ''r''
      else if c = CHR 0x09 then bs @ ''t''
      else if c = CHR 0x08 then bs @ ''b''
      else if c = CHR 0x0C then bs @ ''f''
      else if (of_char c :: nat) < 32
           then bs @ ''u00'' @ [hex_chars ! (of_char c div 16), hex_chars ! (of_char c mod 16)]
      else [c])"

definition json_dumps :: "string \<Rightarrow> string" where
  \<comment> \<open>\<open>json.dumps(s, ensure_ascii=False, indent=4)\<close> for a text \<open>s\<close>\<close>
  "json_dumps s = dq @ concat (map json_escape s) @ dq"

record world =
  files :: "string \<rightharpoonup> string"
  stdout :: "string list"

definition export_json :: "world \<Rightarrow> string \<Rightarrow> string \<Rightarrow> world" where
  \<comment> \<open>the file at \<open>directory\<close> is written anew, and the text printed\<close>
  "export_json w airflow_dag directory =
     (let json_output = collapse airflow_dag
      in w \<lparr> files := (files w)(directory \<mapsto> json_dumps json_output),
             stdout := stdout w @ [json_output @ nl] \<rparr>)"

subsection \<open>generate\_json\_and\_sample\<close>

text \<open>
  Steps 2 to 7 of \<open>generate_json_and_sample\<close>. The frame of step 1 and the advertiser name
  of step 3 come from Jira and from ClickHouse and are inputs here; step 8 queries ClickHouse
  after the job document is written and is outside the model. The result is the world
  after step 7 together with the assembled document.
\<close>

definition generate_json_and_sample ::
  "generator \<Rightarrow> today \<Rightarrow> world \<Rightarrow> ticket_row list \<Rightarrow> string \<Rightarrow> string
   \<Rightarrow> py_error + (world \<times> string)" where
  "generate_json_and_sample self now w all_data_df advertiser_input json_path =
     (case all_data_df of
        [] \<Rightarrow> Inl IndexError
      | first # _ \<Rightarrow>
          let delivery_method = lower (delivery_method_col first);
              recipients = replace_char CHR '';'' CHR '','' (lower (recipient_list_col first))
          in
            thenE (discover_timespan now (map time_span_col all_data_df)) (\<lambda>time_span.
            thenE (discover_cron (map period_and_time_col all_data_df)) (\<lambda>cron_job.
            thenE (sql_statement_generator all_data_df) (\<lambda>sql_elements.
            thenE (case time_span of
                     TS_Int n \<Rightarrow>
                       assemble_int_dag_json self delivery_method recipients advertiser_input n
                         cron_job sql_elements
                   | TS_Str s \<Rightarrow>
                       if CHR ''-'' \<in> set s
                       then assemble_str_dag_json self delivery_method recipients advertiser_input s
                              cron_job sql_elements
                       else assemble_default_dag_json self delivery_method recipients
                              advertiser_input time_span cron_job sql_elements
                   | TS_None \<Rightarrow>
                       assemble_default_dag_json self delivery_method recipients advertiser_input
                         time_span cron_job sql_elements) (\<lambda>airflow_dag.
            Inr (export_json w airflow_dag json_path, airflow_dag))))))"

definition job_written :: "string \<Rightarrow> py_error + (world \<times> string) \<Rightarrow> bool" where
  \<comment> \<open>the run returned, and there is a file at the path\<close>
  "job_written json_path r =
     (case r of Inl e \<Rightarrow> False | Inr (w, doc) \<Rightarrow> files w json_path \<noteq> None)"

section \<open>Example tickets\<close>


definition publisher_ticket :: ticket_row where
  "publisher_ticket = \<lparr> time_span_col = ''Last 7 Days'',
                        sql_select_columns_col = ''Date, Publisher Name, Pub Name, Publisher, Clicks'',
                        period_and_time_col = ''daily'', delivery_method_col = ''email'',
                        recipient_list_col = ''a@b.c'', lid_hid_col = ''12~34'' \<rparr>"

definition unparsed_ticket :: ticket_row where
  "unparsed_ticket = \<lparr> time_span_col = ''whenever'',
                          sql_select_columns_col = ''Date, Clicks'',
                          period_and_time_col = ''Daily at 8 am'', delivery_method_col = ''Email'',
                          recipient_list_col = ''a@b.c'', lid_hid_col = ''12~34'' \<rparr>"

definition a_generator :: generator where
  "a_generator = \<lparr> clickhouse_host = ''localhost'', db_name = ''addotnet'' \<rparr>"

definition a_day :: today where
  "a_day = \<lparr> year = 2026, month = 11, day = 3 \<rparr>"

definition empty_world :: world where
  "empty_world = \<lparr> files = Map.empty, stdout = [] \<rparr>"

section \<open>Facts about texts\<close>

lemma is_digit_nth: "n < 10 \<Longrightarrow> is_digit (digit_chars ! n)"
  unfolding is_digit_def by (rule nth_mem) (simp add: digit_chars_def)

lemma digit_val_nth: "n < 10 \<Longrightarrow> digit_val (digit_chars ! n) = n"
proof -
  assume "n < 10"
  then have "n \<in> {0, 1, 2, 3, 4, 5, 6, 7, 8, 9}" by auto
  then show ?thesis
    by (auto simp: digit_val_def digit_chars_def upt_conv_Cons)
qed

lemma digit_not_space: "is_digit c \<Longrightarrow> \<not> is_space c"
  by (auto simp: is_digit_def is_space_def digit_chars_def)

lemma digit_not_sign: "is_digit c \<Longrightarrow> c \<noteq> CHR ''-'' \<and> c \<noteq> CHR ''+'' \<and> c \<noteq> CHR ''*'' \<and> c \<noteq> CHR ''_'' \<and> c \<noteq> CHR '' ''"
  by (auto simp: is_digit_def digit_chars_def)

lemma str_nat_digits: "list_all is_digit (str_nat n)"
  by (induction n rule: str_nat.induct) (subst str_nat.simps, simp add: is_digit_nth)

lemma str_nat_nonempty: "str_nat n \<noteq> []"
  by (subst str_nat.simps) simp

lemma isdigit_str_nat: "isdigit (str_nat n)"
  by (simp add: isdigit_def str_nat_digits str_nat_nonempty)

lemma digits_value_str_nat: "digits_value (str_nat n) = n"
proof (induction n rule: str_nat.induct)
  case (1 n)
  show ?case
  proof (cases "n < 10")
    case True
    then show ?thesis
      by (subst str_nat.simps) (simp add: digits_value_def digit_val_nth)
  next
    case False
    with 1 have "digits_value (str_nat (n div 10)) = n div 10" by simp
    with False show ?thesis
      by (subst str_nat.simps) (simp add: digits_value_def digit_val_nth)
  qed
qed

lemma no_double_underscore_digits: "list_all is_digit s \<Longrightarrow> no_double_underscore s"
  by (induction s rule: no_double_underscore.induct) (auto dest: digit_not_sign)

lemma int_digits_digits:
  assumes "s \<noteq> []" "list_all is_digit s"
  shows "int_digits s = Some (digits_value s)"
proof -
  have f: "filter is_digit s = s" using assms(2) by (simp add: list_all_iff)
  have a: "list_all (\<lambda>c. is_digit c \<or> c = CHR ''_'') s"
    using assms(2) by (simp add: list_all_iff)
  have h: "is_digit (hd s)" "is_digit (last s)"
    using assms by (simp_all add: list_all_iff)
  show ?thesis
    using assms(1) f a h no_double_underscore_digits[OF assms(2)]
    by (simp add: int_digits_def)
qed

lemma strip_digits: "list_all is_digit s \<Longrightarrow> strip s = s"
proof -
  assume a: "list_all is_digit s"
  have d: "\<And>t. list_all is_digit t \<Longrightarrow> dropWhile is_space t = t"
    by (case_tac t) (auto dest: digit_not_space)
  have "list_all is_digit (rev s)" using a by (simp add: list_all_iff)
  then show ?thesis using a by (simp add: strip_def d)
qed

lemma py_int_digits:
  assumes "s \<noteq> []" "list_all is_digit s"
  shows "py_int s = Inr (int (digits_value s))"
proof -
  obtain c cs where s: "s = c # cs" using assms(1) by (cases s) auto
  then have "is_digit c" using assms(2) by simp
  then have "c \<noteq> CHR ''-''" "c \<noteq> CHR ''+''" using digit_not_sign by auto
  then show ?thesis
    using int_digits_digits[OF assms] strip_digits[OF assms(2)] s
    by (simp add: py_int_def)
qed

lemma py_int_str_nat: "py_int (str_nat n) = Inr (int n)"
  using py_int_digits[OF str_nat_nonempty str_nat_digits, of n] by (simp add: digits_value_str_nat)

lemma py_int_str_int: "0 \<le> i \<Longrightarrow> py_int (str_int i) = Inr i"
  by (simp add: str_int_def py_int_str_nat)

lemma isdigit_str_int: "0 \<le> i \<Longrightarrow> isdigit (str_int i)"
  by (simp add: str_int_def isdigit_str_nat)

lemma minute_delta_str_int: "0 \<le> i \<Longrightarrow> minute_delta (str_int i) = i"
  by (simp add: minute_delta_def isdigit_str_int py_int_str_int)

lemma split_ws_from_word:
  "list_all (\<lambda>c. \<not> is_space c) w \<Longrightarrow> split_ws_from cur (w @ s) = split_ws_from (cur @ w) s"
  by (induction w arbitrary: cur) auto

lemma split_ws_from_space:
  "is_space c \<Longrightarrow> cur \<noteq> [] \<Longrightarrow> split_ws_from cur (c # s) = cur # split_ws_from [] s"
  by simp

lemma isdigit_no_space: "isdigit s \<Longrightarrow> list_all (\<lambda>c. \<not> is_space c) s"
  by (auto simp: isdigit_def list_all_iff dest: digit_not_space)

lemma space_is_space: "is_space CHR '' ''"
  by (simp add: is_space_def)

lemma star_not_space: "\<not> is_space CHR ''*''"
  by (simp add: is_space_def)

lemma split_ws_daily:
  assumes "isdigit a" "isdigit b"
  shows "split_ws (a @ '' '' @ b @ '' * * *'') = [a, b, ''*'', ''*'', ''*'']"
proof -
  have na: "a \<noteq> []" "b \<noteq> []" using assms by (auto simp: isdigit_def)
  have "split_ws (a @ '' '' @ b @ '' * * *'') = split_ws_from a ('' '' @ b @ '' * * *'')"
    using split_ws_from_word[OF isdigit_no_space[OF assms(1)], of "[]"] by (simp add: split_ws_def)
  also have "\<dots> = a # split_ws_from [] (b @ '' * * *'')"
    using na by (simp add: space_is_space)
  also have "split_ws_from [] (b @ '' * * *'') = split_ws_from b '' * * *''"
    using split_ws_from_word[OF isdigit_no_space[OF assms(2)], of "[]"] by simp
  also have "\<dots> = [b, ''*'', ''*'', ''*'']"
    using na by (simp add: space_is_space star_not_space)
  finally show ?thesis .
qed

lemma split_ws_weekly:
  assumes "isdigit a" "isdigit b" "isdigit w"
  shows "split_ws (a @ '' '' @ b @ '' * * '' @ w) = [a, b, ''*'', ''*'', w]"
proof -
  have na: "a \<noteq> []" "b \<noteq> []" "w \<noteq> []" using assms by (auto simp: isdigit_def)
  have "split_ws (a @ '' '' @ b @ '' * * '' @ w) = split_ws_from a ('' '' @ b @ '' * * '' @ w)"
    using split_ws_from_word[OF isdigit_no_space[OF assms(1)], of "[]"] by (simp add: split_ws_def)
  also have "\<dots> = a # split_ws_from [] (b @ '' * * '' @ w)"
    using na by (simp add: space_is_space)
  also have "split_ws_from [] (b @ '' * * '' @ w) = split_ws_from b ('' * * '' @ w)"
    using split_ws_from_word[OF isdigit_no_space[OF assms(2)], of "[]"] by simp
  also have "\<dots> = [b, ''*'', ''*''] @ split_ws_from [] (w @ [])"
    using na by (simp add: space_is_space star_not_space)
  also have "split_ws_from [] (w @ []) = split_ws_from w []"
    using split_ws_from_word[OF isdigit_no_space[OF assms(3)], of "[]" "[]"] by simp
  finally show ?thesis using na by simp
qed

lemma remove_spaces_word: "list_all (\<lambda>c. \<not> is_space c) w \<Longrightarrow> remove_spaces w = w"
  by (simp add: remove_spaces_def list_all_iff)

lemma remove_spaces_append: "remove_spaces (a @ b) = remove_spaces a @ remove_spaces b"
  by (simp add: remove_spaces_def)

lemma remove_spaces_daily:
  assumes "isdigit a" "isdigit b"
  shows "remove_spaces (a @ '' '' @ b @ '' * * *'') = a @ b @ ''***''"
  using remove_spaces_word[OF isdigit_no_space[OF assms(1)]]
        remove_spaces_word[OF isdigit_no_space[OF assms(2)]]
  by (simp add: remove_spaces_append) (simp add: remove_spaces_def is_space_def)

lemma remove_spaces_weekly:
  assumes "isdigit a" "isdigit b" "isdigit w"
  shows "remove_spaces (a @ '' '' @ b @ '' * * '' @ w) = a @ b @ ''**'' @ w"
  using remove_spaces_word[OF isdigit_no_space[OF assms(1)]]
        remove_spaces_word[OF isdigit_no_space[OF assms(2)]]
        remove_spaces_word[OF isdigit_no_space[OF assms(3)]]
  by (simp add: remove_spaces_append) (simp add: remove_spaces_def is_space_def)

lemma endswith_last: "endswith ''***'' s \<Longrightarrow> last s = CHR ''*''"
  by (auto simp: endswith_def suffix_def)

lemma isdigit_last: "isdigit w \<Longrightarrow> last w \<noteq> CHR ''*''"
proof -
  assume a: "isdigit w"
  then have "last w \<in> set w" by (simp add: isdigit_def)
  then have "is_digit (last w)" using a by (simp add: isdigit_def list_all_iff)
  then show ?thesis using digit_not_sign by blast
qed

lemma timedelta_daily:
  assumes "0 \<le> M" "0 \<le> H"
  shows "timedelta_calculator (str_int M @ '' '' @ str_int H @ '' * * *'') = Inr (Daily, H - 3, M)"
proof -
  let ?a = "str_int M" and ?b = "str_int H"
  define cron where "cron = ?a @ '' '' @ ?b @ '' * * *''"
  have d: "isdigit ?a" "isdigit ?b" using assms by (simp_all add: isdigit_str_int)
  have p: "split_ws cron = [?a, ?b, ''*'', ''*'', ''*'']"
    unfolding cron_def by (rule split_ws_daily[OF d])
  have t: "remove_spaces cron = ?a @ ?b @ ''***''"
    unfolding cron_def by (rule remove_spaces_daily[OF d])
  have e: "endswith ''***'' (?a @ ?b @ ''***'')"
    unfolding endswith_def by (metis append_assoc suffix_append suffix_order.refl)
  have n: "cron \<noteq> []" unfolding cron_def by simp
  have "timedelta_calculator cron = Inr (Daily, H - 3, M)"
    using assms e n
    by (simp add: timedelta_calculator_def Let_def p t thenE_def py_int_str_int
        minute_delta_str_int standard_start_time_def)
  then show ?thesis unfolding cron_def .
qed

lemma timedelta_weekly:
  assumes "0 \<le> M" "0 \<le> H" "0 \<le> w"
  shows "timedelta_calculator (str_int M @ '' '' @ str_int H @ '' * * '' @ str_int w)
         = Inr (Weekly, - ((w * 24) - (H - 3)), M)"
proof -
  let ?a = "str_int M" and ?b = "str_int H" and ?w = "str_int w"
  define cron where "cron = ?a @ '' '' @ ?b @ '' * * '' @ ?w"
  have d: "isdigit ?a" "isdigit ?b" "isdigit ?w" using assms by (simp_all add: isdigit_str_int)
  have p: "split_ws cron = [?a, ?b, ''*'', ''*'', ?w]"
    unfolding cron_def by (rule split_ws_weekly[OF d])
  have t: "remove_spaces cron = ?a @ ?b @ ''**'' @ ?w"
    unfolding cron_def by (rule remove_spaces_weekly[OF d])
  have w: "?w \<noteq> []" using d by (simp add: isdigit_def)
  have l: "last (?a @ ?b @ ''**'' @ ?w) \<noteq> CHR ''*''"
    using isdigit_last[OF d(3)] w by simp
  then have e: "\<not> endswith ''***'' (?a @ ?b @ ''**'' @ ?w)"
    using endswith_last by blast
  have n: "cron \<noteq> []" unfolding cron_def by simp
  have "timedelta_calculator cron = Inr (Weekly, - ((w * 24) - (H - 3)), M)"
    using assms e l n d(3) w
    by (simp add: timedelta_calculator_def Let_def p t thenE_def py_int_str_int
        minute_delta_str_int standard_start_time_def)
  then show ?thesis unfolding cron_def .
qed

lemma concat_split_ws_from: "concat (split_ws_from cur s) = cur @ remove_spaces s"
  by (induction cur s rule: split_ws_from.induct) (auto simp: remove_spaces_def)

lemma concat_split_ws: "concat (split_ws s) = remove_spaces s"
  by (simp add: split_ws_def concat_split_ws_from)

lemma split_ws_from_nonempty: "f \<in> set (split_ws_from cur s) \<Longrightarrow> f \<noteq> []"
  by (induction cur s rule: split_ws_from.induct) (auto split: if_splits)

lemma split_ws_nonempty: "f \<in> set (split_ws s) \<Longrightarrow> f \<noteq> []"
  unfolding split_ws_def by (rule split_ws_from_nonempty)

lemma last_concat: "fs \<noteq> [] \<Longrightarrow> last fs \<noteq> [] \<Longrightarrow> last (concat fs) = last (last fs)"
  by (induction fs) (auto simp: last_append)

lemma last_remove_spaces:
  assumes "length (split_ws cron) = 5"
  shows "last (remove_spaces cron) = last (split_ws cron ! 4) \<and> remove_spaces cron \<noteq> []"
proof -
  let ?fs = "split_ws cron"
  have n: "?fs \<noteq> []" using assms by auto
  then have l: "last ?fs = ?fs ! 4" using assms by (simp add: last_conv_nth)
  have "last ?fs \<in> set ?fs" using n by simp
  then have e: "last ?fs \<noteq> []" by (rule split_ws_nonempty)
  have "last (concat ?fs) = last (last ?fs)" by (rule last_concat[OF n e])
  moreover have "concat ?fs \<noteq> []" using n e by (metis concat_eq_Nil_conv last_in_set)
  ultimately show ?thesis using l by (simp add: concat_split_ws)
qed

section \<open>Facts about matching\<close>

lemma rx_match_Seq:
  "st' \<in> set (rx_match (Seq a b) st) \<Longrightarrow> \<exists>mid\<in>set (rx_match a st). st' \<in> set (rx_match b mid)"
  by simp

lemma rx_match_keeps:
  "st' \<in> set (rx_match r st) \<Longrightarrow> n \<notin> rx_groups r \<Longrightarrow> snd (snd st') n = snd (snd st) n"
proof (induction r arbitrary: st st')
  case (Chr p)
  obtain i s g where st: "st = (i, s, g)" by (cases st) auto
  with Chr show ?case by (cases s) (auto split: if_splits)
next
  case (Seq a b)
  from rx_match_Seq[OF Seq.prems(1)] obtain mid
    where m: "mid \<in> set (rx_match a st)" "st' \<in> set (rx_match b mid)" by blast
  from Seq.prems(2) have n: "n \<notin> rx_groups a" "n \<notin> rx_groups b" by simp_all
  have "snd (snd st') n = snd (snd mid) n" by (rule Seq.IH(2)[OF m(2) n(2)])
  also have "\<dots> = snd (snd st) n" by (rule Seq.IH(1)[OF m(1) n(1)])
  finally show ?case .
next
  case (Alt a b)
  from Alt.prems(2) have n: "n \<notin> rx_groups a" "n \<notin> rx_groups b" by simp_all
  from Alt.prems(1) have "st' \<in> set (rx_match a st) \<or> st' \<in> set (rx_match b st)" by simp
  then show ?case using Alt.IH(1)[OF _ n(1)] Alt.IH(2)[OF _ n(2)] by blast
next
  case (Opt a)
  from Opt.prems(2) have n: "n \<notin> rx_groups a" by simp
  from Opt.prems(1) have "st' \<in> set (rx_match a st) \<or> st' = st" by auto
  then show ?case using Opt.IH[OF _ n] by blast
next
  case (Rep greedy lo hi p)
  obtain i s g where st: "st = (i, s, g)" by (cases st) auto
  from Rep.prems(1) show ?case unfolding st by (auto simp: Let_def)
next
  case (Grp m a)
  obtain i s g where st: "st = (i, s, g)" by (cases st) auto
  from Grp.prems(1) obtain j s' g' where m: "(j, s', g') \<in> set (rx_match a (i, s, g))"
    and e: "st' = (j, s', g'(m \<mapsto> take (j - i) s))" unfolding st by auto
  from Grp.prems(2) have n: "n \<noteq> m" "n \<notin> rx_groups a" by auto
  from Grp.IH[OF m n(2)] e st n(1) show ?case by simp
next
  case Bol
  obtain i s g where st: "st = (i, s, g)" by (cases st) auto
  from Bol.prems(1) show ?case unfolding st by (auto split: if_splits)
next
  case Eol
  obtain i s g where st: "st = (i, s, g)" by (cases st) auto
  from Eol.prems(1) show ?case unfolding st by (auto split: if_splits)
qed


lemma rx_match_grp_rep:
  assumes "st' \<in> set (rx_match (Grp n (Rep greedy lo hi p)) st)"
  shows "\<exists>t. snd (snd st') n = Some t \<and> list_all p t \<and> lo \<le> length t"
proof -
  obtain i s g where st: "st = (i, s, g)" by (cases st) auto
  define avail where "avail = length (takeWhile p s)"
  from assms obtain k where k: "lo \<le> k" "k \<le> avail"
    and e: "st' = (i + k, drop k s, g(n \<mapsto> take k s))"
    unfolding st by (auto simp: Let_def avail_def split: option.splits if_splits)
  have "take k s = take k (takeWhile p s @ dropWhile p s)" by simp
  also have "\<dots> = take k (takeWhile p s)"
    using k(2) unfolding avail_def by (simp del: takeWhile_dropWhile_id)
  finally have a: "list_all p (take k s)"
    by (auto simp: list_all_iff dest: in_set_takeD set_takeWhileD)
  have "avail \<le> length s" unfolding avail_def by (rule length_takeWhile_le)
  then have "length (take k s) = k" using k by simp
  with a e k show ?thesis by simp
qed


lemma search_from_result:
  "search_from r i s = Some g \<Longrightarrow> \<exists>st j s''. (j, s'', g) \<in> set (rx_match r st)"
proof (induction s arbitrary: i)
  case Nil
  show ?case
  proof (cases "rx_match r (i, [], Map.empty)")
    case Nil
    with Nil.prems show ?thesis by simp
  next
    case (Cons x xs)
    obtain j s'' g' where x: "x = (j, s'', g')" by (cases x) auto
    with Cons Nil.prems have "g' = g" by simp
    with Cons x have "(j, s'', g) \<in> set (rx_match r (i, [], Map.empty))" by simp
    then show ?thesis by blast
  qed
next
  case (Cons c cs)
  show ?case
  proof (cases "rx_match r (i, c # cs, Map.empty)")
    case Nil
    with Cons.prems have "search_from r (Suc i) cs = Some g" by simp
    then show ?thesis by (rule Cons.IH)
  next
    case (Cons x xs)
    obtain j s'' g' where x: "x = (j, s'', g')" by (cases x) auto
    with Cons Cons.prems have "g' = g" by simp
    with Cons x have "(j, s'', g) \<in> set (rx_match r (i, c # cs, Map.empty))" by simp
    then show ?thesis by blast
  qed
qed

lemma re_search_result:
  "re_search r s = Some g \<Longrightarrow> \<exists>st j s''. (j, s'', g) \<in> set (rx_match r st)"
  unfolding re_search_def by (rule search_from_result)

lemma time_rx_group_2:
  assumes "re_search time_rx s = Some g" "g 2 = Some t"
  shows "isdigit t"
proof -
  from assms(1) obtain st j s'' where m: "(j, s'', g) \<in> set (rx_match time_rx st)"
    using re_search_result by blast
  from rx_match_Seq[OF m[unfolded time_rx_def]] obtain m1
    where "(j, s'', g) \<in> set (rx_match (Seq (lit CHR '':'') (Grp 2 (Rep True 1 None is_digit))) m1)"
    by blast
  from rx_match_Seq[OF this] obtain m2
    where "(j, s'', g) \<in> set (rx_match (Grp 2 (Rep True 1 None is_digit)) m2)"
    by blast
  from rx_match_grp_rep[OF this] assms(2) show ?thesis
    by (auto simp: isdigit_def)
qed

lemma am_pm_rx_group_1:
  assumes "re_search am_pm_rx s = Some g" "g 1 = Some t"
  shows "isdigit t"
proof -
  from assms(1) obtain st j s'' where m: "(j, s'', g) \<in> set (rx_match am_pm_rx st)"
    using re_search_result by blast
  from rx_match_Seq[OF m[unfolded am_pm_rx_def]] obtain mid
    where a: "mid \<in> set (rx_match (Grp 1 (Rep True 1 None is_digit)) st)"
    and b: "(j, s'', g) \<in> set (rx_match
      (Seq (Opt (lit CHR '':''))
      (Seq (Opt (Seq (Chr is_digit) (Seq (Rep True 2 (Some 2) (\<lambda>c. c = CHR 0x7B)) (lit CHR 0x7D))))
      (Seq (Rep True 0 None is_space)
           (Grp 2 (Alt (lits ''am'') (lits ''pm'')))))) mid)"
    by blast
  have "snd (snd (j, s'', g)) 1 = snd (snd mid) 1"
    by (rule rx_match_keeps[OF b]) (simp add: lit_def)
  with rx_match_grp_rep[OF a] assms(2) show ?thesis
    by (auto simp: isdigit_def)
qed


lemma extract_dropna_row:
  assumes "row \<in> set (extract_dropna r [1, 2] col)"
  shows "\<exists>g s. s \<in> set col \<and> re_search r s = Some g \<and> g 1 = Some (row ! 0) \<and> g 2 = Some (row ! 1)"
proof -
  from assms obtain s where s: "s \<in> set col"
    and a: "list_all (\<lambda>v. v \<noteq> None) (extract_row r [1, 2] s)"
    and e: "row = map the (extract_row r [1, 2] s)"
    by (auto simp: extract_dropna_def)
  show ?thesis
  proof (cases "re_search r s")
    case None
    with a show ?thesis by (simp add: extract_row_def)
  next
    case (Some g)
    with a e s show ?thesis by (auto simp: extract_row_def)
  qed
qed

section \<open>Facts about the column specs\<close>

lemma group_by_excludes_aggregates:
  "e \<in> set (dropna (map selects_for_sql (group_by_df rows))) \<Longrightarrow> \<not> is_aggregate (Some e)"
  by (auto simp: dropna_def group_by_df_def)






lemma sql_statement_generator_returns:
  assumes "dataframe \<noteq> []" and "list_ex (\<lambda>t. CHR ''~'' \<in> set (lid_hid_col t)) dataframe"
  shows "\<exists>out. sql_statement_generator dataframe = Inr out
     \<and> melted_column_names out = join '', '' (map json_col_names (select_df dataframe))
     \<and> melted_base_sql out = ''SELECT '' @ join '', '' (map final_sql_select_column (select_df dataframe)) @ '' FROM ad_event_view ''
     \<and> melted_group_by out = join '', '' (dropna (map selects_for_sql (group_by_df (select_df dataframe))))"
proof -
  from assms(1) obtain first rest where "dataframe = first # rest" by (cases dataframe) auto
  with assms(2) show ?thesis
    by (simp add: sql_statement_generator_def Let_def)
qed

section \<open>Facts about the schedule interpreter\<close>

lemma find_weekday_range:
  "0 \<le> find_weekday weekday_map text 1 \<and> find_weekday weekday_map text 1 \<le> 6"
  by (simp add: weekday_map_def)

lemma drop_duplicates_Cons: "drop_duplicates (x # xs) = x # drop_duplicates_from [x] xs"
  by (simp add: drop_duplicates_def)

lemma py_int_isdigit: "isdigit t \<Longrightarrow> \<exists>n. 0 \<le> n \<and> py_int t = Inr n"
  using py_int_digits[of t] by (auto simp: isdigit_def)

lemma minute_value_returns:
  "\<exists>m. 0 \<le> m \<and>
     (case extract_dropna time_rx [1, 2] col of [] \<Rightarrow> Inr 0 | row # _ \<Rightarrow> py_int (row ! 1)) = Inr m"
proof (cases "extract_dropna time_rx [1, 2] col")
  case Nil
  then show ?thesis by simp
next
  case (Cons row rows)
  then have "row \<in> set (extract_dropna time_rx [1, 2] col)" by simp
  from extract_dropna_row[OF this] obtain g s
    where "re_search time_rx s = Some g" "g 2 = Some (row ! 1)" by blast
  then have "isdigit (row ! 1)" by (rule time_rx_group_2)
  from py_int_isdigit[OF this] Cons show ?thesis by simp
qed

lemma hour_value_returns:
  "\<exists>h. (case extract_dropna am_pm_rx [1, 2] col of
           [] \<Rightarrow> Inr 4
         | row # _ \<Rightarrow>
             thenE (py_int (row ! 0)) (\<lambda>hour.
               Inr (if lower (row ! 1) = ''pm'' \<and> hour < 12 then hour + 12 else hour))) = Inr (h::int)"
proof (cases "extract_dropna am_pm_rx [1, 2] col")
  case Nil
  then show ?thesis by simp
next
  case (Cons row rows)
  then have "row \<in> set (extract_dropna am_pm_rx [1, 2] col)" by simp
  from extract_dropna_row[OF this] obtain g s
    where "re_search am_pm_rx s = Some g" "g 1 = Some (row ! 0)" by blast
  then have "isdigit (row ! 0)" by (rule am_pm_rx_group_1)
  from py_int_isdigit[OF this] obtain n where "py_int (row ! 0) = Inr n" by blast
  with Cons show ?thesis by (simp add: thenE_def)
qed

lemma discover_cron_form:
  assumes "df \<noteq> []"
  shows "\<exists>m h. 0 \<le> m \<and> 0 \<le> h \<and> h < 24 \<and>
           (discover_cron df = Inr (str_int m @ '' '' @ str_int h @ '' * * *'')
            \<or> (\<exists>w. 0 \<le> w \<and> w \<le> 6 \<and>
                  discover_cron df = Inr (str_int m @ '' '' @ str_int h @ '' * * '' @ str_int w)))"
proof -
  obtain x xs where df: "df = x # xs" using assms by (cases df) auto
  define df_lower where "df_lower = drop_duplicates (map lower df)"
  define first where "first = lower x"
  have dl: "df_lower = first # drop_duplicates_from [first] (map lower xs)"
    unfolding df_lower_def first_def df by (simp add: drop_duplicates_Cons)
  obtain m where m: "0 \<le> m"
    "(case extract_dropna time_rx [1, 2] df_lower of [] \<Rightarrow> Inr 0 | row # _ \<Rightarrow> py_int (row ! 1)) = Inr m"
    using minute_value_returns by blast
  obtain h0 where h0: "(case extract_dropna am_pm_rx [1, 2] df_lower of
           [] \<Rightarrow> Inr 4
         | row # _ \<Rightarrow>
             thenE (py_int (row ! 0)) (\<lambda>hour.
               Inr (if lower (row ! 1) = ''pm'' \<and> hour < 12 then hour + 12 else hour))) = Inr h0"
    using hour_value_returns by blast
  define hz where "hz = (if contains ''ct'' first \<or> contains ''cst'' first then h0 - 2
                   else if contains ''et'' first \<or> contains ''est'' first \<or> contains ''edt'' first
                        then h0 - 3
                   else if contains ''mt'' first \<or> contains ''mst'' first then h0 - 1
                   else h0)"
  define w where "w = find_weekday weekday_map first 1"
  have c: "discover_cron df =
     (if contains ''daily'' first \<or> contains '' day'' first
      then Inr (str_int m @ '' '' @ str_int (hz mod 24) @ '' * * *'')
      else Inr (str_int m @ '' '' @ str_int (hz mod 24) @ '' * * '' @ str_int w))"
    unfolding discover_cron_def Let_def df_lower_def[symmetric] m(2) h0
    unfolding dl hz_def w_def by (simp add: thenE_def)
  have hr: "0 \<le> hz mod 24" "hz mod 24 < 24" by simp_all
  have wr: "0 \<le> w" "w \<le> 6" unfolding w_def using find_weekday_range by simp_all
  show ?thesis
  proof (cases "contains ''daily'' first \<or> contains '' day'' first")
    case True
    with c have "discover_cron df = Inr (str_int m @ '' '' @ str_int (hz mod 24) @ '' * * *'')" by simp
    with m(1) hr show ?thesis by blast
  next
    case False
    with c have "discover_cron df = Inr (str_int m @ '' '' @ str_int (hz mod 24) @ '' * * '' @ str_int w)" by simp
    with m(1) hr wr show ?thesis by blast
  qed
qed

lemma split_char_from_word:
  "sep \<notin> set w \<Longrightarrow> split_char_from sep cur (w @ s) = split_char_from sep (cur @ w) s"
  by (induction w arbitrary: cur) auto

lemma split_char_field:
  "sep \<notin> set w \<Longrightarrow> split_char sep (w @ sep # s) = w # split_char sep s"
  using split_char_from_word[of sep w "[]" "sep # s"] by (simp add: split_char_def)

lemma split_char_last: "sep \<notin> set w \<Longrightarrow> split_char sep w = [w]"
  using split_char_from_word[of sep w "[]" "[]"] by (simp add: split_char_def)

lemma isdigit_no_blank: "isdigit s \<Longrightarrow> CHR '' '' \<notin> set s"
  using digit_not_sign by (auto simp: isdigit_def list_all_iff)

lemma split_char_cron:
  assumes "isdigit a" "isdigit b" "CHR '' '' \<notin> set d"
  shows "split_char CHR '' '' (a @ '' '' @ b @ '' * * '' @ d) = [a, b, ''*'', ''*'', d]"
proof -
  have "split_char CHR '' '' (a @ '' '' @ b @ '' * * '' @ d)
        = a # split_char CHR '' '' (b @ '' * * '' @ d)"
    using split_char_field[OF isdigit_no_blank[OF assms(1)]] by simp
  also have "split_char CHR '' '' (b @ '' * * '' @ d) = b # split_char CHR '' '' (''* * '' @ d)"
    using split_char_field[OF isdigit_no_blank[OF assms(2)]] by simp
  also have "split_char CHR '' '' (''* * '' @ d) = ''*'' # split_char CHR '' '' (''* '' @ d)"
    using split_char_field[of "CHR '' ''" "''*''" "''* '' @ d"] by simp
  also have "split_char CHR '' '' (''* '' @ d) = ''*'' # split_char CHR '' '' d"
    using split_char_field[of "CHR '' ''" "''*''" d] by simp
  also have "split_char CHR '' '' d = [d]" by (rule split_char_last[OF assms(3)])
  finally show ?thesis .
qed

section \<open>Facts about the timespan resolver\<close>





section \<open>Facts about a run\<close>

lemma lag_of_discovered_cron:
  assumes "df \<noteq> []"
  shows "\<exists>cron td. discover_cron df = Inr cron \<and> timedelta_calculator cron = Inr td"
proof -
  from discover_cron_form[OF assms] obtain m h
    where r: "0 \<le> m" "0 \<le> h"
      and c: "discover_cron df = Inr (str_int m @ '' '' @ str_int h @ '' * * *'')
            \<or> (\<exists>w. 0 \<le> w \<and> w \<le> 6 \<and>
                  discover_cron df = Inr (str_int m @ '' '' @ str_int h @ '' * * '' @ str_int w))"
    by blast
  from c show ?thesis
  proof
    assume "discover_cron df = Inr (str_int m @ '' '' @ str_int h @ '' * * *'')"
    with timedelta_daily[OF r] show ?thesis by blast
  next
    assume "\<exists>w. 0 \<le> w \<and> w \<le> 6 \<and>
                  discover_cron df = Inr (str_int m @ '' '' @ str_int h @ '' * * '' @ str_int w)"
    then obtain w where "0 \<le> w"
      "discover_cron df = Inr (str_int m @ '' '' @ str_int h @ '' * * '' @ str_int w)" by blast
    with timedelta_weekly[OF r, of w] show ?thesis by blast
  qed
qed

lemma unparsed_run:
  assumes "all_data_df = first # rest"
    and "list_ex (\<lambda>t. CHR ''~'' \<in> set (lid_hid_col t)) all_data_df"
    and "discover_timespan now (map time_span_col all_data_df) = Inr TS_None"
  shows "\<exists>cron td els doc.
           discover_cron (map period_and_time_col all_data_df) = Inr cron
         \<and> timedelta_calculator cron = Inr td
         \<and> sql_statement_generator all_data_df = Inr els
         \<and> doc = job_document (lower (delivery_method_col first))
                   (replace_char CHR '';'' CHR '','' (lower (recipient_list_col first)))
                   advertiser_input ''None'' (str_report_type (fst td) @ '' Report'') ''1''
                   '':startDate AND :endDate'' cron els
                   (str_int (fst (snd td))) (str_int (snd (snd td)))
         \<and> generate_json_and_sample self now w all_data_df advertiser_input json_path
             = Inr (export_json w doc json_path, doc)"
proof -
  have n: "map period_and_time_col all_data_df \<noteq> []" using assms(1) by simp
  from lag_of_discovered_cron[OF n] obtain cron td
    where c: "discover_cron (map period_and_time_col all_data_df) = Inr cron"
      and t: "timedelta_calculator cron = Inr td" by blast
  have "all_data_df \<noteq> []" using assms(1) by simp
  from sql_statement_generator_returns[OF this assms(2)] obtain els
    where e: "sql_statement_generator all_data_df = Inr els" by blast
  define doc where "doc = job_document (lower (delivery_method_col first))
                   (replace_char CHR '';'' CHR '','' (lower (recipient_list_col first)))
                   advertiser_input ''None'' (str_report_type (fst td) @ '' Report'') ''1''
                   '':startDate AND :endDate'' cron els
                   (str_int (fst (snd td))) (str_int (snd (snd td)))"
  have a: "assemble_default_dag_json self (lower (delivery_method_col first))
             (replace_char CHR '';'' CHR '','' (lower (recipient_list_col first)))
             advertiser_input TS_None cron els = Inr doc"
    unfolding doc_def by (simp add: assemble_default_dag_json_def t thenE_def str_timespan_def)
  have "generate_json_and_sample self now w all_data_df advertiser_input json_path
          = Inr (export_json w doc json_path, doc)"
    unfolding generate_json_and_sample_def assms(1) list.case Let_def
    using assms(3) c e a unfolding assms(1) by (simp add: thenE_def)
  with c t e doc_def show ?thesis by blast
qed

lemma unparsed_ticket_timespan:
  "discover_timespan a_day (map time_span_col [unparsed_ticket]) = Inr TS_None"
  by code_simp

section \<open>The lag calculator on the crons of the schedule interpreter\<close>

text \<open>
  Claim C6. For every minute \<open>M\<close> and every hour \<open>H\<close> from 0 to 23, the lag calculator
  on the daily cron \<open>M H * * *\<close> gives Daily with the hour offset \<open>H - 3\<close> and the minute
  offset \<open>M\<close>, and on the weekly cron \<open>M H * * w\<close>, with \<open>w\<close> from 0 to 6, gives Weekly with
  the hour offset \<open>- ((w * 24) - (H - 3))\<close> and the minute offset \<open>M\<close>.
\<close>

theorem lag_of_daily_and_weekly_cron:
  assumes "0 \<le> M" and "0 \<le> H" and "H \<le> 23" and "0 \<le> w" and "w \<le> 6"
  shows "timedelta_calculator (str_int M @ '' '' @ str_int H @ '' * * *'')
           = Inr (Daily, H - 3, M)
       \<and> timedelta_calculator (str_int M @ '' '' @ str_int H @ '' * * '' @ str_int w)
           = Inr (Weekly, - ((w * 24) - (H - 3)), M)"
  using assms timedelta_daily timedelta_weekly by simp

theorem lag_of_daily_and_weekly_cron_witness:
  "timedelta_calculator ''30 8 * * *'' = Inr (Daily, 5, 30)
   \<and> timedelta_calculator ''30 8 * * 1'' = Inr (Weekly, - 19, 30)"
  using lag_of_daily_and_weekly_cron [of 30 8 1]
  by (simp add: str_int_def str_nat.simps digit_chars_def)

section \<open>The classification of the lag calculator\<close>

text \<open>
  Claim C3 says that a cron of five fields is Daily exactly when its fifth field is \<open>*\<close>,
  Weekly exactly when that field is numeric, and Monthly otherwise, whatever the third and
  fourth fields are. The calculator decides on the text without its white space instead:
  \<open>0 3 1 * *\<close> has the fifth field \<open>*\<close> and is Monthly, and \<open>0 3 * * mon\<close> has a fifth field
  that is not numeric and is Weekly.
\<close>

theorem lag_classification_counterexample:
  "split_ws ''0 3 1 * *'' = [''0'', ''3'', ''1'', ''*'', ''*'']
   \<and> timedelta_calculator ''0 3 1 * *'' = Inr (Monthly, 0, 0)
   \<and> split_ws ''0 3 * * mon'' = [''0'', ''3'', ''*'', ''*'', ''mon'']
   \<and> \<not> isdigit ''mon''
   \<and> timedelta_calculator ''0 3 * * mon'' = Inr (Weekly, 0, 0)"
  by code_simp

text \<open>
  Claim C3, amended. For every cron of five fields on which the lag calculator returns:
  it is Daily exactly when the fields, written one after the other, end in \<open>***\<close>; Weekly
  exactly when they do not and the fifth field does not end in \<open>*\<close>; Monthly exactly when
  they do not and the fifth field ends in \<open>*\<close>.
\<close>

theorem lag_classification:
  assumes "length (split_ws cron) = 5" and "timedelta_calculator cron = Inr (rt, h, m)"
  shows "(rt = Daily \<longleftrightarrow> endswith ''***'' (concat (split_ws cron)))
       \<and> (rt = Weekly \<longleftrightarrow> \<not> endswith ''***'' (concat (split_ws cron))
                            \<and> last (split_ws cron ! 4) \<noteq> CHR ''*'')
       \<and> (rt = Monthly \<longleftrightarrow> \<not> endswith ''***'' (concat (split_ws cron))
                            \<and> last (split_ws cron ! 4) = CHR ''*'')"
proof -
  note l = last_remove_spaces[OF assms(1)]
  show ?thesis
  proof (cases "endswith ''***'' (remove_spaces cron)")
    case True
    with assms(2) have "rt = Daily"
      by (auto simp: timedelta_calculator_def Let_def thenE_def split: if_splits sum.splits)
    with True show ?thesis by (simp add: concat_split_ws)
  next
    case False
    show ?thesis
    proof (cases "last (remove_spaces cron) = CHR ''*''")
      case True
      with False assms(2) l have "rt = Monthly"
        by (auto simp: timedelta_calculator_def Let_def thenE_def split: if_splits sum.splits)
      with True False l show ?thesis by (simp add: concat_split_ws)
    next
      case n: False
      with False assms(2) l have "rt = Weekly"
        by (auto simp: timedelta_calculator_def Let_def thenE_def split: if_splits sum.splits)
      with n False l show ?thesis by (simp add: concat_split_ws)
    qed
  qed
qed

theorem lag_classification_witness:
  "length (split_ws ''0 3 1 * *'') = 5
   \<and> timedelta_calculator ''0 3 1 * *'' = Inr (Monthly, 0, 0)
   \<and> \<not> endswith ''***'' (concat (split_ws ''0 3 1 * *''))
   \<and> last (split_ws ''0 3 1 * *'' ! 4) = CHR ''*''"
proof -
  have a: "length (split_ws ''0 3 1 * *'') = 5" by code_simp
  have b: "timedelta_calculator ''0 3 1 * *'' = Inr (Monthly, 0, 0)" by code_simp
  from lag_classification[OF a b] a b show ?thesis by simp
qed

section \<open>The hour of a schedule text\<close>

text \<open>
  Claim C4 says that the hour of a text such as \<open>10:30 am\<close> is extracted and converted
  from the 12-hour clock. The pattern for the hour cannot pass over the minutes, so it
  finds the minutes next to the marker: the hour read from \<open>10:30 am\<close> is 30, which the
  modulo turns into 6, and the hour read from \<open>8:15 pm\<close> is 15. Only a text without
  minutes, such as \<open>2 pm\<close>, gives its hour.
\<close>

theorem hour_of_10_30_am:
  "extract_dropna am_pm_rx [1, 2] [''10:30 am''] = [[''30'', ''am'']]
   \<and> discover_cron [''10:30 am''] = Inr ''30 6 * * 1''
   \<and> discover_cron [''8:15 pm''] = Inr ''15 15 * * 1''
   \<and> discover_cron [''2 pm''] = Inr ''0 14 * * 1''"
  by code_simp

section \<open>The name of a column\<close>

text \<open>
  Claim C2 says that of the token \<open>CPC - cost per click\<close> only the text before the dash is
  the field name, so that it resolves to the expression of cpc. The first pattern accepts a
  dash only at the end of the token, so the whole token is the name, no expression is found
  for it, and the select fragment has an empty expression. The same token with an equals
  sign gives the name \<open>cpc\<close>.
\<close>

theorem dash_annotation_is_kept:
  "main_text_of ''cpc - cost per click'' = ''cpc - cost per click''
   \<and> generate_selects ''cpc - cost per click'' = None
   \<and> map final_sql_select_column
         (select_df [\<lparr> time_span_col = ''Last 7 Days'',
                        sql_select_columns_col = ''CPC - cost per click'',
                        period_and_time_col = ''daily'', delivery_method_col = ''email'',
                        recipient_list_col = ''a@b.c'', lid_hid_col = ''12~34'' \<rparr>])
       = ['' as cpc_-_cost_per_click_as_column'']
   \<and> main_text_of ''cpc = cost per click'' = ''cpc''"
  by code_simp

section \<open>Assembly does not depend on the run\<close>


section \<open>Columns without an expression\<close>



section \<open>The publisher columns\<close>

text \<open>
  Claim C9. The fields \<open>publisher name\<close>, \<open>pub name\<close> and \<open>publisher\<close> map to
  \<open>affiliate_account_name\<close>, which contains \<open>count\<close>; the keyword check classifies it as an
  aggregate, and so it is in the GROUP BY list of no frame. For the columns
  \<open>Date, Publisher Name, Pub Name, Publisher, Clicks\<close> the list is \<open>event_date\<close> alone.
\<close>

theorem publisher_columns_count_as_aggregates:
  "generate_selects ''publisher name'' = Some ''affiliate_account_name''
   \<and> generate_selects ''pub name'' = Some ''affiliate_account_name''
   \<and> generate_selects ''publisher'' = Some ''affiliate_account_name''
   \<and> contains ''count'' ''affiliate_account_name''
   \<and> is_aggregate (Some ''affiliate_account_name'')
   \<and> ''affiliate_account_name''
        \<notin> set (dropna (map selects_for_sql (group_by_df (select_df dataframe))))
   \<and> dropna (map selects_for_sql (group_by_df (select_df [publisher_ticket])))
        = [''event_date'']"
proof -
  have a: "generate_selects ''publisher name'' = Some ''affiliate_account_name''
   \<and> generate_selects ''pub name'' = Some ''affiliate_account_name''
   \<and> generate_selects ''publisher'' = Some ''affiliate_account_name''
   \<and> contains ''count'' ''affiliate_account_name''
   \<and> is_aggregate (Some ''affiliate_account_name'')"
    by code_simp
  have b: "dropna (map selects_for_sql (group_by_df (select_df [publisher_ticket])))
        = [''event_date'']"
    by code_simp
  from a b show ?thesis using group_by_excludes_aggregates by blast
qed

section \<open>The shape of a cron\<close>

text \<open>
  Claim C5. For every schedule series that is not empty the schedule interpreter returns
  a cron with exactly five fields between single blanks: the minute and the hour are
  integers printed in decimal, the minute not negative and the hour from 0 to 23; the
  third and the fourth field are \<open>*\<close>; the fifth is \<open>*\<close> or an integer from 0 to 6.
\<close>

theorem cron_has_five_fields:
  assumes "df_and_column \<noteq> []"
  shows "\<exists>cron m h dow. discover_cron df_and_column = Inr cron
           \<and> split_char CHR '' '' cron = [str_int m, str_int h, ''*'', ''*'', dow]
           \<and> 0 \<le> m \<and> 0 \<le> h \<and> h < 24
           \<and> (dow = ''*'' \<or> (\<exists>w. 0 \<le> w \<and> w \<le> 6 \<and> dow = str_int w))"
proof -
  from discover_cron_form[OF assms] obtain m h
    where r: "0 \<le> m" "0 \<le> h" "h < 24"
      and c: "discover_cron df_and_column = Inr (str_int m @ '' '' @ str_int h @ '' * * *'')
            \<or> (\<exists>w. 0 \<le> w \<and> w \<le> 6 \<and>
                  discover_cron df_and_column
                    = Inr (str_int m @ '' '' @ str_int h @ '' * * '' @ str_int w))"
    by blast
  have d: "isdigit (str_int m)" "isdigit (str_int h)" using r by (simp_all add: isdigit_str_int)
  from c show ?thesis
  proof
    assume a: "discover_cron df_and_column = Inr (str_int m @ '' '' @ str_int h @ '' * * *'')"
    have "split_char CHR '' '' (str_int m @ '' '' @ str_int h @ '' * * '' @ ''*'')
          = [str_int m, str_int h, ''*'', ''*'', ''*'']"
      by (rule split_char_cron[OF d]) simp
    then have "split_char CHR '' '' (str_int m @ '' '' @ str_int h @ '' * * *'')
          = [str_int m, str_int h, ''*'', ''*'', ''*'']" by simp
    with a r show ?thesis by blast
  next
    assume "\<exists>w. 0 \<le> w \<and> w \<le> 6 \<and>
                  discover_cron df_and_column
                    = Inr (str_int m @ '' '' @ str_int h @ '' * * '' @ str_int w)"
    then obtain w where w: "0 \<le> w" "w \<le> 6"
      and a: "discover_cron df_and_column
                    = Inr (str_int m @ '' '' @ str_int h @ '' * * '' @ str_int w)" by blast
    have "split_char CHR '' '' (str_int m @ '' '' @ str_int h @ '' * * '' @ str_int w)
          = [str_int m, str_int h, ''*'', ''*'', str_int w]"
      by (rule split_char_cron[OF d isdigit_no_blank[OF isdigit_str_int[OF w(1)]]])
    with a r w show ?thesis by blast
  qed
qed

theorem cron_has_five_fields_witness:
  "discover_cron [''Every Sunday 9 pm ET''] = Inr ''0 18 * * 0''
   \<and> split_char CHR '' '' ''0 18 * * 0'' = [''0'', ''18'', ''*'', ''*'', ''0'']"
proof -
  have n: "[''Every Sunday 9 pm ET''] \<noteq> []" by simp
  have e: "discover_cron [''Every Sunday 9 pm ET''] = Inr ''0 18 * * 0''" by code_simp
  have s: "split_char CHR '' '' ''0 18 * * 0'' = [''0'', ''18'', ''*'', ''*'', ''0'']" by code_simp
  from cron_has_five_fields[OF n] e s show ?thesis by simp
qed

section \<open>The results of the timespan resolver\<close>




section \<open>A ticket with an unparsed timespan\<close>

text \<open>
  Claim C1 says that for a ticket whose timespan text matches no pattern the assembly
  halts and no job document is written. The run does not look at the result of the
  resolver before it assembles: \<open>None\<close> is neither an integer nor a text, so the default
  variant is assembled and exported. For the timespan \<open>whenever\<close> the resolver returns
  \<open>None\<close> and the run writes the file.
\<close>

theorem unparsed_timespan_counterexample:
  "discover_timespan a_day (map time_span_col [unparsed_ticket]) = Inr TS_None
   \<and> job_written ''job.json''
        (generate_json_and_sample a_generator a_day empty_world [unparsed_ticket] ''Acme_Corp''
           ''job.json'')"
proof -
  have l: "list_ex (\<lambda>t. CHR ''~'' \<in> set (lid_hid_col t)) [unparsed_ticket]"
    by (simp add: unparsed_ticket_def)
  from unparsed_run[OF refl l unparsed_ticket_timespan, of "''Acme_Corp''" a_generator empty_world "''job.json''"]
  obtain doc where "generate_json_and_sample a_generator a_day empty_world [unparsed_ticket]
      ''Acme_Corp'' ''job.json'' = Inr (export_json empty_world doc ''job.json'', doc)" by blast
  then have "job_written ''job.json''
        (generate_json_and_sample a_generator a_day empty_world [unparsed_ticket] ''Acme_Corp''
           ''job.json'')"
    by (simp add: job_written_def export_json_def Let_def)
  with unparsed_ticket_timespan show ?thesis by simp
qed

text \<open>
  Claim C1, amended. For every ticket frame with at least one row and a tilde in
  \<open>lid_hid\<close> whose timespan resolves to \<open>None\<close>, the run does not halt: it assembles the
  default variant, with \<open>None\<close> in the attachment name, the classification of the cron in
  the subject, \<open>report_for_past_n_days\<close> 1 and the date filter
  \<open>:startDate AND :endDate\<close>, and writes that document, collapsed and encoded as a JSON
  string, to the path given.
\<close>

theorem unparsed_timespan_still_writes:
  assumes "all_data_df = first # rest"
    and "list_ex (\<lambda>t. CHR ''~'' \<in> set (lid_hid_col t)) all_data_df"
    and "discover_timespan now (map time_span_col all_data_df) = Inr TS_None"
  shows "\<exists>cron td els doc.
           discover_cron (map period_and_time_col all_data_df) = Inr cron
         \<and> timedelta_calculator cron = Inr td
         \<and> sql_statement_generator all_data_df = Inr els
         \<and> doc = job_document (lower (delivery_method_col first))
                   (replace_char CHR '';'' CHR '','' (lower (recipient_list_col first)))
                   advertiser_input ''None'' (str_report_type (fst td) @ '' Report'') ''1''
                   '':startDate AND :endDate'' cron els
                   (str_int (fst (snd td))) (str_int (snd (snd td)))
         \<and> generate_json_and_sample self now w all_data_df advertiser_input json_path
             = Inr (export_json w doc json_path, doc)
         \<and> files (export_json w doc json_path) json_path = Some (json_dumps (collapse doc))
         \<and> job_written json_path
              (generate_json_and_sample self now w all_data_df advertiser_input json_path)"
proof -
  from unparsed_run[OF assms, of advertiser_input self w json_path] obtain cron td els doc
    where u: "discover_cron (map period_and_time_col all_data_df) = Inr cron"
      "timedelta_calculator cron = Inr td"
      "sql_statement_generator all_data_df = Inr els"
      "doc = job_document (lower (delivery_method_col first))
                   (replace_char CHR '';'' CHR '','' (lower (recipient_list_col first)))
                   advertiser_input ''None'' (str_report_type (fst td) @ '' Report'') ''1''
                   '':startDate AND :endDate'' cron els
                   (str_int (fst (snd td))) (str_int (snd (snd td)))"
      "generate_json_and_sample self now w all_data_df advertiser_input json_path
             = Inr (export_json w doc json_path, doc)"
    by blast
  have f: "files (export_json w doc json_path) json_path = Some (json_dumps (collapse doc))"
    by (simp add: export_json_def Let_def)
  then have "job_written json_path
              (generate_json_and_sample self now w all_data_df advertiser_input json_path)"
    unfolding u(5) by (simp add: job_written_def)
  with u f show ?thesis by blast
qed

theorem unparsed_timespan_still_writes_witness:
  "discover_cron (map period_and_time_col [unparsed_ticket]) = Inr ''0 8 * * *''
   \<and> timedelta_calculator ''0 8 * * *'' = Inr (Daily, 5, 0)
   \<and> (\<exists>doc. generate_json_and_sample a_generator a_day empty_world [unparsed_ticket]
               ''Acme_Corp'' ''job.json'' = Inr (export_json empty_world doc ''job.json'', doc)
            \<and> files (export_json empty_world doc ''job.json'') ''job.json''
                = Some (json_dumps (collapse doc)))"
proof -
  have l: "list_ex (\<lambda>t. CHR ''~'' \<in> set (lid_hid_col t)) [unparsed_ticket]"
    by (simp add: unparsed_ticket_def)
  have c: "discover_cron (map period_and_time_col [unparsed_ticket]) = Inr ''0 8 * * *''"
    by code_simp
  have t: "timedelta_calculator ''0 8 * * *'' = Inr (Daily, 5, 0)" by code_simp
  from unparsed_timespan_still_writes[OF refl l unparsed_ticket_timespan,
      of "''Acme_Corp''" a_generator empty_world "''job.json''"] c t
  show ?thesis by auto
qed

end
